theory Spec2Isabelle
  imports Main "HOL-Library.Finite_Map"
begin

section \<open>The file system and the Python library calls of the two scripts\<close>

text \<open>
  The repository is two Python scripts, \<^verbatim>\<open>fileextracter.py\<close> (the Collector) and
  \<^verbatim>\<open>fileconverter.py\<close> (the Extractor). Both are straight-line scripts over the file
  system, so the state of the model is the file system.

  \<^item> A path \<^verbatim>\<open>os.path.join(folder, name)\<close> is the pair \<open>(folder, name)\<close>.
  \<^item> A file name is a \<open>string\<close>; the contents of a file are a list of bytes.
  \<^item> An entry of a folder is either a regular file with its bytes, or an entry that
    exists but that \<^verbatim>\<open>open\<close> refuses with an \<^verbatim>\<open>OSError\<close> (a directory, a file without
    permission).
  \<^item> The entries are a finite map, as a real file system holds finitely many.
  \<^item> Exceptions are values of the type \<open>exn\<close>.
  The first embedding of each script takes every path to name a file of its own (no
  symbolic or hard links) and \<^verbatim>\<open>print\<close> to return. A second embedding, further down,
  drops both assumptions, and the first is proved to be its special case.
\<close>

type_synonym bytes = "char list"
type_synonym path = "string \<times> string"

datatype node = File bytes | Denied

datatype exn =
  FileNotFoundError path | PermissionError path | LZMAError string | UnicodeEncodeError string

record filesys =
  folders :: "string set"
  entries :: "(path, node) fmap"

abbreviation lookup :: "filesys \<Rightarrow> path \<Rightarrow> node option" where
  "lookup fs p \<equiv> fmlookup (entries fs) p"


text \<open>\<^verbatim>\<open>os.makedirs(d, exist_ok=True)\<close>: the folder exists afterwards, and an existing
  folder is no error. (The creation of the parents of \<open>d\<close> and a failure of the call
  itself are not modelled.)\<close>

definition makedirs :: "string \<Rightarrow> filesys \<Rightarrow> filesys" where
  "makedirs d fs = fs\<lparr>folders := insert d (folders fs)\<rparr>"

text \<open>\<^verbatim>\<open>os.path.exists(p)\<close>.\<close>

definition exists :: "filesys \<Rightarrow> path \<Rightarrow> bool" where
  "exists fs p = (lookup fs p \<noteq> None)"

definition write_file :: "path \<Rightarrow> bytes \<Rightarrow> filesys \<Rightarrow> filesys" where
  "write_file p b fs = fs\<lparr>entries := fmupd p (File b) (entries fs)\<rparr>"

text \<open>Opening a path for reading: the bytes of a regular file, or the exception.\<close>

definition open_rb :: "filesys \<Rightarrow> path \<Rightarrow> exn + bytes" where
  "open_rb fs p =
     (case lookup fs p of
        None \<Rightarrow> Inl (FileNotFoundError p)
      | Some Denied \<Rightarrow> Inl (PermissionError p)
      | Some (File b) \<Rightarrow> Inr b)"

text \<open>\<^verbatim>\<open>open(p, "wb")\<close>: creates the file or truncates it to length zero, unless the
  entry refuses to be opened. Here \<open>p\<close> names a file of its own; \<open>open_wb_env\<close> below
  is the same call on a file system with links.\<close>

definition open_wb :: "filesys \<Rightarrow> path \<Rightarrow> exn + filesys" where
  "open_wb fs p =
     (case lookup fs p of
        Some Denied \<Rightarrow> Inl (PermissionError p)
      | _ \<Rightarrow> Inr (write_file p [] fs))"

text \<open>\<^verbatim>\<open>shutil.copy2(src, dst)\<close>: \<open>src\<close> is opened for reading, \<open>dst\<close> for writing, and
  the bytes of \<open>src\<close> become the bytes of \<open>dst\<close>. The Collector calls it only with a
  \<open>dst\<close> that does not exist. Here \<open>dst\<close> names a file of its own; \<open>copy2_env\<close> below
  is the same call on a file system with links, where \<open>dst\<close> may be a dangling
  symbolic link. (The file metadata that \<^verbatim>\<open>copy2\<close> also copies are not part of the
  model.)\<close>

definition copy2 :: "filesys \<Rightarrow> path \<Rightarrow> path \<Rightarrow> exn + filesys" where
  "copy2 fs src dst =
     (case open_rb fs src of
        Inl e \<Rightarrow> Inl e
      | Inr b \<Rightarrow>
          (case open_wb fs dst of
             Inl e \<Rightarrow> Inl e
           | Inr fs' \<Rightarrow> Inr (write_file dst b fs')))"

subsection \<open>Strings\<close>

text \<open>\<^verbatim>\<open>str.lower\<close> on the ASCII letters; the other characters are left as they are,
  which is all the suffix tests of the scripts depend on.\<close>

definition lower_char :: "char \<Rightarrow> char" where
  "lower_char c =
     (case map_of (zip ''ABCDEFGHIJKLMNOPQRSTUVWXYZ'' ''abcdefghijklmnopqrstuvwxyz'') c of
        None \<Rightarrow> c
      | Some l \<Rightarrow> l)"

definition lower :: "string \<Rightarrow> string" where
  "lower s = map lower_char s"

text \<open>\<^verbatim>\<open>s.endswith(suf)\<close>.\<close>

definition endswith :: "string \<Rightarrow> string \<Rightarrow> bool" where
  "endswith s suf = (length suf \<le> length s \<and> drop (length s - length suf) s = suf)"

text \<open>\<^verbatim>\<open>str(n)\<close> for a natural number: its decimal digits.\<close>

definition digit :: "nat \<Rightarrow> char" where
  "digit d = ''0123456789'' ! d"

function str_nat :: "nat \<Rightarrow> string" where
  "str_nat n = (if n < 10 then [digit n] else str_nat (n div 10) @ [digit (n mod 10)])"
  by pat_completeness auto
termination
  by (relation "measure id") auto

declare str_nat.simps [simp del]

text \<open>Reading a decimal numeral back, which shows that \<open>str_nat\<close> is injective.\<close>

definition digit_val :: "char \<Rightarrow> nat" where
  "digit_val c = (case map_of (zip ''0123456789'' [0 ..< 10]) c of None \<Rightarrow> 0 | Some d \<Rightarrow> d)"

definition int_of_str :: "string \<Rightarrow> nat" where
  "int_of_str s = foldl (\<lambda>a c. 10 * a + digit_val c) 0 s"

text \<open>
  \<^verbatim>\<open>os.path.splitext(p)\<close> on a file name (no directory separator in \<open>p\<close>): the
  extension starts at the last dot, unless every character before that dot is a dot
  too, in which case the extension is empty.
  \<^verbatim>\<open>
    dotIndex = p.rfind('.')
    if dotIndex > sepIndex:
        filenameIndex = sepIndex + 1
        while filenameIndex < dotIndex:
            if p[filenameIndex] != '.': return p[:dotIndex], p[dotIndex:]
            filenameIndex += 1
    return p, p[:0]
  \<close>
\<close>

fun rfind_dot :: "string \<Rightarrow> nat option" where
  "rfind_dot [] = None"
| "rfind_dot (c # cs) =
     (case rfind_dot cs of
        Some i \<Rightarrow> Some (Suc i)
      | None \<Rightarrow> if c = CHR ''.'' then Some 0 else None)"

definition splitext :: "string \<Rightarrow> string \<times> string" where
  "splitext p =
     (case rfind_dot p of
        None \<Rightarrow> (p, [])
      | Some dotIndex \<Rightarrow>
          if list_ex (\<lambda>c. c \<noteq> CHR ''.'') (take dotIndex p)
          then (take dotIndex p, drop dotIndex p)
          else (p, []))"

section \<open>The Collector (\<^verbatim>\<open>fileextracter.py\<close>)\<close>

text \<open>The test of line 16.\<close>

definition is_cnf :: "string \<Rightarrow> bool" where
  "is_cnf file = (endswith (lower file) ''.cnf'' \<or> endswith (lower file) ''.cnf.xz'')"

text \<open>The name \<^verbatim>\<open>f"{base}_{count}{ext}"\<close> of line 25.\<close>

definition new_name :: "string \<Rightarrow> string \<Rightarrow> nat \<Rightarrow> string" where
  "new_name base ext count = base @ ''_'' @ str_nat count @ ext"

text \<open>
  The state of a run: the file system and the lines printed so far. The Collector's
  state also logs every completed call of \<^verbatim>\<open>shutil.copy2\<close>, as the pair of its
  arguments.
\<close>

record state =
  fsys :: filesys
  printed :: "string list"

record cstate = state +
  copied :: "(path \<times> path) list"

text \<open>
  Lines 23 to 27: the loop variables are \<open>destination_path\<close> and \<open>count\<close>.
  \<^verbatim>\<open>
    while os.path.exists(destination_path):
        new_name = f"{base}_{count}{ext}"
        destination_path = os.path.join(destination, new_name)
        count += 1
  \<close>
  The loop ends because the folder holds finitely many entries and the candidate
  names are pairwise different.
\<close>

function while_exists :: "filesys \<Rightarrow> string \<Rightarrow> string \<Rightarrow> string \<Rightarrow> path \<Rightarrow> nat \<Rightarrow> path" where
  "while_exists fs destination base ext destination_path count =
     (if exists fs destination_path
      then while_exists fs destination base ext (destination, new_name base ext count) (count + 1)
      else destination_path)"
  by pat_completeness auto
termination
proof (relation "measure (\<lambda>(fs, destination, base, ext, destination_path, count).
    card {n. count \<le> n \<and> exists fs (destination, new_name base ext n)}
    + (if exists fs destination_path then 1 else 0))")
  show "wf (measure (\<lambda>(fs, destination, base, ext, destination_path, count).
    card {n. count \<le> n \<and> exists fs (destination, new_name base ext n)}
    + (if exists fs destination_path then 1 else 0)))"
    by simp
next
  fix fs :: filesys and destination base ext :: string and destination_path :: path and count :: nat
  assume ex: "exists fs destination_path"
  have dv: "digit_val (digit d) = d" if "d < 10" for d
  proof -
    from that have "d \<in> {0, 1, 2, 3, 4, 5, 6, 7, 8, 9}" by auto
    then show ?thesis by (auto simp add: digit_val_def digit_def upt_rec)
  qed
  have decode: "int_of_str (str_nat n) = n" for n
  proof (induction n rule: str_nat.induct)
    case (1 n)
    show ?case
    proof (cases "n < 10")
      case True
      then show ?thesis by (simp add: str_nat.simps [of n] int_of_str_def dv)
    next
      case False
      with 1 have "int_of_str (str_nat (n div 10)) = n div 10" by simp
      with False show ?thesis by (simp add: str_nat.simps [of n] int_of_str_def dv)
    qed
  qed
  have inj: "inj (\<lambda>n. (destination, new_name base ext n))"
  proof (rule injI)
    fix n m assume "(destination, new_name base ext n) = (destination, new_name base ext m)"
    then have "str_nat n = str_nat m" by (simp add: new_name_def)
    then have "int_of_str (str_nat n) = int_of_str (str_nat m)" by simp
    then show "n = m" by (simp only: decode)
  qed
  let ?S = "\<lambda>c. {n. c \<le> n \<and> exists fs (destination, new_name base ext n)}"
  have "finite ((\<lambda>n. (destination, new_name base ext n)) -` fmdom' (entries fs))"
    using inj by (intro finite_vimageI) simp_all
  moreover have "?S count \<subseteq> (\<lambda>n. (destination, new_name base ext n)) -` fmdom' (entries fs)"
    by (auto simp add: exists_def fmlookup_dom'_iff)
  ultimately have fin: "finite (?S count)" by (rule rev_finite_subset)
  have le: "card (?S (count + 1)) \<le> card (?S count)"
    by (rule card_mono [OF fin]) auto
  have lt: "card (?S (count + 1)) < card (?S count)"
    if "exists fs (destination, new_name base ext count)"
  proof (rule psubset_card_mono [OF fin])
    from that have "count \<in> ?S count" by simp
    moreover have "count \<notin> ?S (count + 1)" by simp
    moreover have "?S (count + 1) \<subseteq> ?S count" by auto
    ultimately show "?S (count + 1) \<subset> ?S count" by blast
  qed
  show "((fs, destination, base, ext, (destination, new_name base ext count), count + 1),
         (fs, destination, base, ext, destination_path, count))
        \<in> measure (\<lambda>(fs, destination, base, ext, destination_path, count).
            card {n. count \<le> n \<and> exists fs (destination, new_name base ext n)}
            + (if exists fs destination_path then 1 else 0))"
    using ex le lt by (cases "exists fs (destination, new_name base ext count)") simp_all
qed

declare while_exists.simps [simp del]

text \<open>Lines 18 to 27: the path the file is copied to.\<close>

definition destination_path_of :: "filesys \<Rightarrow> string \<Rightarrow> string \<Rightarrow> path" where
  "destination_path_of fs destination file =
     (let destination_path = (destination, file)
      in if exists fs destination_path
         then (case splitext file of
                 (base, ext) \<Rightarrow> while_exists fs destination base ext destination_path 1)
         else destination_path)"

text \<open>Lines 16 to 30, the body of the inner loop for one \<open>file\<close> of \<open>root\<close>. An
  exception of \<^verbatim>\<open>copy2\<close> is not caught: it is returned with the state it left.\<close>

definition collect_file :: "string \<Rightarrow> string \<Rightarrow> string \<Rightarrow> cstate \<Rightarrow> exn option \<times> cstate" where
  "collect_file destination root file s =
     (if is_cnf file then
        let source_path = (root, file);
            destination_path = destination_path_of (fsys s) destination file
        in (case copy2 (fsys s) source_path destination_path of
              Inl e \<Rightarrow> (Some e, s)
            | Inr fs' \<Rightarrow>
                (None, s\<lparr>fsys := fs', copied := copied s @ [(source_path, destination_path)]\<rparr>))
      else (None, s))"

text \<open>Line 15, \<^verbatim>\<open>for file in files\<close>.\<close>

fun collect_files :: "string \<Rightarrow> string \<Rightarrow> string list \<Rightarrow> cstate \<Rightarrow> exn option \<times> cstate" where
  "collect_files destination root [] s = (None, s)"
| "collect_files destination root (file # files) s =
     (case collect_file destination root file s of
        (Some e, s') \<Rightarrow> (Some e, s')
      | (None, s') \<Rightarrow> collect_files destination root files s')"

text \<open>Line 14, \<^verbatim>\<open>for root, dirs, files in os.walk(source_root)\<close>. What \<^verbatim>\<open>os.walk\<close>
  yields is an input of the model: the list of its triples. (\<^verbatim>\<open>os.walk\<close> itself
  raises nothing: it skips what it cannot list.)\<close>

type_synonym walk = "(string \<times> string list \<times> string list) list"

fun collect_walk :: "string \<Rightarrow> walk \<Rightarrow> cstate \<Rightarrow> exn option \<times> cstate" where
  "collect_walk destination [] s = (None, s)"
| "collect_walk destination ((root, dirs, files) # w) s =
     (case collect_files destination root files s of
        (Some e, s') \<Rightarrow> (Some e, s')
      | (None, s') \<Rightarrow> collect_walk destination w s')"

text \<open>The whole script: line 11, the loops, and line 32 when the loops return and
  its \<^verbatim>\<open>print\<close> returns; \<open>collector_env\<close> below is the script with links and with a
  \<^verbatim>\<open>print\<close> that may raise.\<close>

definition collector :: "string \<Rightarrow> walk \<Rightarrow> filesys \<Rightarrow> exn option \<times> cstate" where
  "collector destination w fs =
     (case collect_walk destination w
             \<lparr>fsys = makedirs destination fs, printed = [], copied = []\<rparr> of
        (Some e, s) \<Rightarrow> (Some e, s)
      | (None, s) \<Rightarrow>
          (None, s\<lparr>printed := printed s @ [''All CNF files collected successfully!'']\<rparr>))"

text \<open>The paths of lines 5 and 8.\<close>

definition backslash :: string where
  "backslash = [CHR 0x5C]"

definition logic_assignment :: string where
  "logic_assignment = ''D:'' @ backslash @ ''Projects'' @ backslash @ ''Logic_Assignment''"

definition source_root :: string where
  "source_root = logic_assignment @ backslash @ ''sc2002benchs''"

definition destination :: string where
  "destination = logic_assignment @ backslash @ ''cnffiles''"

definition fileextracter :: "walk \<Rightarrow> filesys \<Rightarrow> exn option \<times> cstate" where
  "fileextracter w fs = collector destination w fs"

section \<open>The Extractor (\<^verbatim>\<open>fileconverter.py\<close>)\<close>

text \<open>
  Two library functions are parameters of the model: what reading an
  \<^verbatim>\<open>lzma\<close> stream gives on the bytes of a file (the decompressed bytes, or the
  exception raised on a corrupt stream), and the text \<^verbatim>\<open>str(e)\<close> of an exception.
\<close>

record lib =
  decompress :: "bytes \<Rightarrow> exn + bytes"
  str_exn :: "exn \<Rightarrow> string"

text \<open>
  Lines 19 to 21, the body of the \<^verbatim>\<open>try\<close>, in the order of its effects:
  \<^verbatim>\<open>lzma.open\<close> opens the compressed file, \<^verbatim>\<open>open(cnf_path, "wb")\<close> creates or
  truncates the output, \<^verbatim>\<open>compressed.read()\<close> reads and decompresses, and
  \<^verbatim>\<open>output.write\<close> stores the result. The first exception ends the body.
\<close>

definition try_extract :: "lib \<Rightarrow> filesys \<Rightarrow> path \<Rightarrow> path \<Rightarrow> exn option \<times> filesys" where
  "try_extract L fs xz_path cnf_path =
     (case open_rb fs xz_path of
        Inl e \<Rightarrow> (Some e, fs)
      | Inr _ \<Rightarrow>
          (case open_wb fs cnf_path of
             Inl e \<Rightarrow> (Some e, fs)
           | Inr fs1 \<Rightarrow>
               (case open_rb fs1 xz_path of
                  Inl e \<Rightarrow> (Some e, fs1)
                | Inr compressed \<Rightarrow>
                    (case decompress L compressed of
                       Inl e \<Rightarrow> (Some e, fs1)
                     | Inr data \<Rightarrow> (None, write_file cnf_path data fs1)))))"

text \<open>The arrow of line 22 in UTF-8.\<close>

definition arrow :: string where
  "arrow = [CHR 0xE2, CHR 0x86, CHR 0x92]"

text \<open>Lines 13 to 24, the body of the loop for one \<open>file\<close>, when the two calls of
  \<^verbatim>\<open>print\<close> return; \<^verbatim>\<open>file[:-3]\<close> drops the last three characters. \<open>extract_file_env\<close>
  below is the same body with a \<^verbatim>\<open>print\<close> that may raise.\<close>

definition extract_file :: "lib \<Rightarrow> string \<Rightarrow> string \<Rightarrow> state \<Rightarrow> string \<Rightarrow> state" where
  "extract_file L source_folder destination_folder s file =
     (if endswith (lower file) ''.cnf.xz'' then
        let xz_path = (source_folder, file);
            cnf_filename = take (length file - 3) file;
            cnf_path = (destination_folder, cnf_filename)
        in (case try_extract L (fsys s) xz_path cnf_path of
              (None, fs') \<Rightarrow>
                s\<lparr>fsys := fs',
                  printed := printed s @ [''Extracted: '' @ file @ '' '' @ arrow @ '' '' @ cnf_filename]\<rparr>
            | (Some e, fs') \<Rightarrow>
                s\<lparr>fsys := fs',
                  printed := printed s @ [''Error extracting '' @ file @ '': '' @ str_exn L e]\<rparr>)
      else s)"

text \<open>The whole script: line 10, the loop of line 12 over what \<^verbatim>\<open>os.listdir\<close>
  returned (an input of the model), and line 26, when every \<^verbatim>\<open>print\<close> returns;
  \<open>extractor_env\<close> below is the script with a \<^verbatim>\<open>print\<close> that may raise. The run is
  modelled from the listing on: an exception of \<^verbatim>\<open>os.makedirs\<close> or of \<^verbatim>\<open>os.listdir\<close>
  is not a per-file failure and is not part of the model.\<close>

definition extractor :: "lib \<Rightarrow> string \<Rightarrow> string \<Rightarrow> string list \<Rightarrow> filesys \<Rightarrow> state" where
  "extractor L source_folder destination_folder listing fs =
     (let s = foldl (extract_file L source_folder destination_folder)
                \<lparr>fsys = makedirs destination_folder fs, printed = []\<rparr> listing
      in s\<lparr>printed := printed s @ [''All .cnf.xz files extracted successfully!'']\<rparr>)"

text \<open>The paths of lines 5 and 9.\<close>

definition source_folder :: string where
  "source_folder = logic_assignment @ backslash @ ''cnffiles''"

definition destination_folder :: string where
  "destination_folder = logic_assignment @ backslash @ ''cnfextractedfiles''"

definition fileconverter :: "lib \<Rightarrow> string list \<Rightarrow> filesys \<Rightarrow> state" where
  "fileconverter L listing fs = extractor L source_folder destination_folder listing fs"

section \<open>Notions used to state the properties\<close>

text \<open>The files the walk visits, in the order of the two loops, and those of them
  that pass the test of line 16.\<close>

definition visits :: "walk \<Rightarrow> path list" where
  "visits w = concat (map (\<lambda>(root, dirs, files). map (Pair root) files) w)"

definition matching :: "walk \<Rightarrow> path list" where
  "matching w = filter (\<lambda>(root, file). is_cnf file) (visits w)"

text \<open>The two loops of the Collector as one loop over the visited files.\<close>

fun collect_list :: "string \<Rightarrow> path list \<Rightarrow> cstate \<Rightarrow> exn option \<times> cstate" where
  "collect_list d [] s = (None, s)"
| "collect_list d ((root, file) # vs) s =
     (case collect_file d root file s of
        (Some e, s') \<Rightarrow> (Some e, s')
      | (None, s') \<Rightarrow> collect_list d vs s')"

text \<open>
  The invariant of the Collector's loops, relative to the file system \<open>fs0\<close> the loops
  started from: the folders and the printed lines are untouched, every entry of \<open>fs0\<close>
  is as it was, every other entry is the target of a logged copy, no two copies have
  the same target, and every target is in the destination folder, was absent from
  \<open>fs0\<close> and holds the bytes of its source.
\<close>

definition collector_inv :: "filesys \<Rightarrow> string \<Rightarrow> cstate \<Rightarrow> bool" where
  "collector_inv fs0 d s \<longleftrightarrow>
     folders (fsys s) = folders fs0 \<and> printed s = [] \<and>
     (\<forall>p. exists fs0 p \<longrightarrow> lookup (fsys s) p = lookup fs0 p) \<and>
     (\<forall>p. exists (fsys s) p \<longrightarrow> exists fs0 p \<or> p \<in> snd ` set (copied s)) \<and>
     distinct (map snd (copied s)) \<and>
     (\<forall>(src, tgt) \<in> set (copied s).
        fst tgt = d \<and> \<not> exists fs0 tgt \<and>
        (\<exists>b. lookup (fsys s) src = Some (File b) \<and> lookup (fsys s) tgt = Some (File b)))"

text \<open>The test of line 13 and the name of line 15 of the Extractor.\<close>

abbreviation is_cnf_xz :: "string \<Rightarrow> bool" where
  "is_cnf_xz file \<equiv> endswith (lower file) ''.cnf.xz''"

abbreviation cnf_filename :: "string \<Rightarrow> string" where
  "cnf_filename file \<equiv> take (length file - 3) file"

text \<open>Two file systems give the Extractor the same inputs: the entries whose names
  pass its suffix test are the same, and the same paths refuse to be opened.\<close>

definition same_inputs :: "filesys \<Rightarrow> filesys \<Rightarrow> bool" where
  "same_inputs fs fs' \<longleftrightarrow>
     (\<forall>p. is_cnf_xz (snd p) \<longrightarrow> lookup fs' p = lookup fs p) \<and>
     (\<forall>p. lookup fs' p = Some Denied \<longleftrightarrow> lookup fs p = Some Denied)"

text \<open>What one iteration of the Extractor's loop stores, as a function of the file
  system the run started from: nothing when the name does not pass the test, the
  compressed file cannot be opened or the output refuses to be opened; else the
  decompressed bytes, or no bytes when decompression raised after the output was
  truncated. \<open>outputs\<close> is the same for the whole listing, later files overriding
  earlier ones.\<close>

definition output_of :: "lib \<Rightarrow> filesys \<Rightarrow> string \<Rightarrow> string \<Rightarrow> string \<Rightarrow> (path, node) fmap" where
  "output_of L fs src dst file =
     (if is_cnf_xz file then
        (case lookup fs (src, file) of
           Some (File c) \<Rightarrow>
             if lookup fs (dst, cnf_filename file) = Some Denied then fmempty
             else fmupd (dst, cnf_filename file)
                    (File (case decompress L c of Inl e \<Rightarrow> [] | Inr data \<Rightarrow> data)) fmempty
         | _ \<Rightarrow> fmempty)
      else fmempty)"

fun outputs :: "lib \<Rightarrow> filesys \<Rightarrow> string \<Rightarrow> string \<Rightarrow> string list \<Rightarrow> (path, node) fmap" where
  "outputs L fs src dst [] = fmempty"
| "outputs L fs src dst (file # files) = output_of L fs src dst file ++\<^sub>f outputs L fs src dst files"

text \<open>The line one iteration prints.\<close>

definition report :: "lib \<Rightarrow> filesys \<Rightarrow> string \<Rightarrow> string \<Rightarrow> string \<Rightarrow> string" where
  "report L fs src dst file =
     (case fst (try_extract L fs (src, file) (dst, cnf_filename file)) of
        None \<Rightarrow> ''Extracted: '' @ file @ '' '' @ arrow @ '' '' @ cnf_filename file
      | Some e \<Rightarrow> ''Error extracting '' @ file @ '': '' @ str_exn L e)"

section \<open>The two scripts with links and with a \<^verbatim>\<open>print\<close> that may raise\<close>

text \<open>
  The definitions above take every path to name a file of its own and \<^verbatim>\<open>print\<close> to
  return. This section embeds the same lines without these two assumptions; the
  parameters of the environment are
  \<^item> \<open>links p\<close>, the other paths that name the file \<open>p\<close> names: the target of a symbolic
    link (also of a dangling one, which \<^verbatim>\<open>os.path.exists\<close> reports as absent), the other
    names of a file with several hard links. A write through one path is a write
    to all of them;
  \<^item> \<open>print_exn line\<close>, the exception \<^verbatim>\<open>print(line)\<close> raises, if it raises (a console
    that cannot encode a character of the line raises \<^verbatim>\<open>UnicodeEncodeError\<close>). A
    \<^verbatim>\<open>print\<close> that raises prints nothing.
  Reading is as before: the file system maps every path to what is read through it.
\<close>

record env =
  links :: "path \<Rightarrow> path list"
  print_exn :: "string \<Rightarrow> exn option"

text \<open>A write of \<open>b\<close> through \<open>p\<close> changes the file under each of its paths.\<close>

definition write_through :: "env \<Rightarrow> path \<Rightarrow> bytes \<Rightarrow> filesys \<Rightarrow> filesys" where
  "write_through E p b fs = foldr (\<lambda>q. write_file q b) (p # links E p) fs"

text \<open>\<^verbatim>\<open>open(p, "wb")\<close> and \<^verbatim>\<open>shutil.copy2(src, dst)\<close> with links.\<close>

definition open_wb_env :: "env \<Rightarrow> filesys \<Rightarrow> path \<Rightarrow> exn + filesys" where
  "open_wb_env E fs p =
     (case lookup fs p of
        Some Denied \<Rightarrow> Inl (PermissionError p)
      | _ \<Rightarrow> Inr (write_through E p [] fs))"

definition copy2_env :: "env \<Rightarrow> filesys \<Rightarrow> path \<Rightarrow> path \<Rightarrow> exn + filesys" where
  "copy2_env E fs src dst =
     (case open_rb fs src of
        Inl e \<Rightarrow> Inl e
      | Inr b \<Rightarrow>
          (case open_wb_env E fs dst of
             Inl e \<Rightarrow> Inl e
           | Inr fs' \<Rightarrow> Inr (write_through E dst b fs')))"

text \<open>The Collector, lines 16 to 30, 15 and 14 as before, with the \<^verbatim>\<open>copy2\<close> that
  follows links.\<close>

definition collect_file_env :: "env \<Rightarrow> string \<Rightarrow> string \<Rightarrow> string \<Rightarrow> cstate \<Rightarrow> exn option \<times> cstate" where
  "collect_file_env E d root file s =
     (if is_cnf file then
        let source_path = (root, file);
            destination_path = destination_path_of (fsys s) d file
        in (case copy2_env E (fsys s) source_path destination_path of
              Inl e \<Rightarrow> (Some e, s)
            | Inr fs' \<Rightarrow>
                (None, s\<lparr>fsys := fs', copied := copied s @ [(source_path, destination_path)]\<rparr>))
      else (None, s))"

fun collect_files_env :: "env \<Rightarrow> string \<Rightarrow> string \<Rightarrow> string list \<Rightarrow> cstate \<Rightarrow> exn option \<times> cstate" where
  "collect_files_env E d root [] s = (None, s)"
| "collect_files_env E d root (file # files) s =
     (case collect_file_env E d root file s of
        (Some e, s') \<Rightarrow> (Some e, s')
      | (None, s') \<Rightarrow> collect_files_env E d root files s')"

fun collect_walk_env :: "env \<Rightarrow> string \<Rightarrow> walk \<Rightarrow> cstate \<Rightarrow> exn option \<times> cstate" where
  "collect_walk_env E d [] s = (None, s)"
| "collect_walk_env E d ((root, dirs, files) # w) s =
     (case collect_files_env E d root files s of
        (Some e, s') \<Rightarrow> (Some e, s')
      | (None, s') \<Rightarrow> collect_walk_env E d w s')"

text \<open>\<^verbatim>\<open>print(line)\<close>: the line is printed, or the exception is raised.\<close>

definition print_line :: "env \<Rightarrow> string \<Rightarrow> 'a state_scheme \<Rightarrow> exn option \<times> 'a state_scheme" where
  "print_line E line s =
     (case print_exn E line of
        None \<Rightarrow> (None, s\<lparr>printed := printed s @ [line]\<rparr>)
      | Some e \<Rightarrow> (Some e, s))"

text \<open>The whole Collector; line 32 is the last statement, so an exception of its
  \<^verbatim>\<open>print\<close> ends the run.\<close>

definition collector_env :: "env \<Rightarrow> string \<Rightarrow> walk \<Rightarrow> filesys \<Rightarrow> exn option \<times> cstate" where
  "collector_env E d w fs =
     (case collect_walk_env E d w
             \<lparr>fsys = makedirs d fs, printed = [], copied = []\<rparr> of
        (Some e, s) \<Rightarrow> (Some e, s)
      | (None, s) \<Rightarrow> print_line E ''All CNF files collected successfully!'' s)"

text \<open>The Extractor, lines 19 to 21 with links.\<close>

definition try_extract_env :: "env \<Rightarrow> lib \<Rightarrow> filesys \<Rightarrow> path \<Rightarrow> path \<Rightarrow> exn option \<times> filesys" where
  "try_extract_env E L fs xz_path cnf_path =
     (case open_rb fs xz_path of
        Inl e \<Rightarrow> (Some e, fs)
      | Inr _ \<Rightarrow>
          (case open_wb_env E fs cnf_path of
             Inl e \<Rightarrow> (Some e, fs)
           | Inr fs1 \<Rightarrow>
               (case open_rb fs1 xz_path of
                  Inl e \<Rightarrow> (Some e, fs1)
                | Inr compressed \<Rightarrow>
                    (case decompress L compressed of
                       Inl e \<Rightarrow> (Some e, fs1)
                     | Inr data \<Rightarrow> (None, write_through E cnf_path data fs1)))))"

text \<open>Lines 23 and 24: the handler prints; an exception of that \<^verbatim>\<open>print\<close> is raised
  inside the handler and nothing catches it.\<close>

definition except_handler :: "env \<Rightarrow> lib \<Rightarrow> string \<Rightarrow> exn \<Rightarrow> state \<Rightarrow> exn option \<times> state" where
  "except_handler E L file e s =
     print_line E (''Error extracting '' @ file @ '': '' @ str_exn L e) s"

text \<open>Lines 13 to 24: the \<^verbatim>\<open>print\<close> of line 22 stands inside the \<^verbatim>\<open>try\<close>, so its
  exception goes to the handler like one of lines 19 to 21.\<close>

definition extract_file_env :: "env \<Rightarrow> lib \<Rightarrow> string \<Rightarrow> string \<Rightarrow> state \<Rightarrow> string \<Rightarrow> exn option \<times> state" where
  "extract_file_env E L src dst s file =
     (if endswith (lower file) ''.cnf.xz'' then
        let xz_path = (src, file);
            cnf_filename = take (length file - 3) file;
            cnf_path = (dst, cnf_filename)
        in (case try_extract_env E L (fsys s) xz_path cnf_path of
              (None, fs') \<Rightarrow>
                (case print_line E (''Extracted: '' @ file @ '' '' @ arrow @ '' '' @ cnf_filename)
                        (s\<lparr>fsys := fs'\<rparr>) of
                   (None, s') \<Rightarrow> (None, s')
                 | (Some e, s') \<Rightarrow> except_handler E L file e s')
            | (Some e, fs') \<Rightarrow> except_handler E L file e (s\<lparr>fsys := fs'\<rparr>))
      else (None, s))"

text \<open>Line 12: the loop stops at the first exception that leaves an iteration.\<close>

fun extract_files_env :: "env \<Rightarrow> lib \<Rightarrow> string \<Rightarrow> string \<Rightarrow> state \<Rightarrow> string list \<Rightarrow> exn option \<times> state" where
  "extract_files_env E L src dst s [] = (None, s)"
| "extract_files_env E L src dst s (file # files) =
     (case extract_file_env E L src dst s file of
        (Some e, s') \<Rightarrow> (Some e, s')
      | (None, s') \<Rightarrow> extract_files_env E L src dst s' files)"

text \<open>The whole Extractor, with the \<^verbatim>\<open>print\<close> of line 26.\<close>

definition extractor_env :: "env \<Rightarrow> lib \<Rightarrow> string \<Rightarrow> string \<Rightarrow> string list \<Rightarrow> filesys \<Rightarrow> exn option \<times> state" where
  "extractor_env E L src dst listing fs =
     (case extract_files_env E L src dst
             \<lparr>fsys = makedirs dst fs, printed = []\<rparr> listing of
        (Some e, s) \<Rightarrow> (Some e, s)
      | (None, s) \<Rightarrow> print_line E ''All .cnf.xz files extracted successfully!'' s)"

text \<open>The environment of the first embedding: no links, and \<^verbatim>\<open>print\<close> returns.\<close>

definition plain_env :: env where
  "plain_env = \<lparr>links = (\<lambda>p. []), print_exn = (\<lambda>line. None)\<rparr>"

text \<open>The line one iteration prints when the handler's \<^verbatim>\<open>print\<close> returns: the
  exception reported is that of lines 19 to 21, or else that of the \<^verbatim>\<open>print\<close> of
  line 22.\<close>

definition report_env :: "env \<Rightarrow> lib \<Rightarrow> filesys \<Rightarrow> string \<Rightarrow> string \<Rightarrow> string \<Rightarrow> string" where
  "report_env E L fs src dst file =
     (case (case fst (try_extract L fs (src, file) (dst, cnf_filename file)) of
              Some e \<Rightarrow> Some e
            | None \<Rightarrow> print_exn E (''Extracted: '' @ file @ '' '' @ arrow @ '' '' @ cnf_filename file)) of
        None \<Rightarrow> ''Extracted: '' @ file @ '' '' @ arrow @ '' '' @ cnf_filename file
      | Some e \<Rightarrow> ''Error extracting '' @ file @ '': '' @ str_exn L e)"

text \<open>No path of the folder \<open>d\<close> shares its file with another path.\<close>

definition no_links_in :: "env \<Rightarrow> string \<Rightarrow> bool" where
  "no_links_in E d \<longleftrightarrow> (\<forall>p. fst p = d \<longrightarrow> links E p = [])"

text \<open>Concrete environments for the examples: a console that cannot encode the bytes
  of the arrow of line 22 nor those of a Greek letter, a console that encodes every
  line, a decompressor for a toy format (the bytes after the magic \<^verbatim>\<open>XZ\<close>) with fixed
  texts for the exceptions, a file system without links, and one link between two
  paths.\<close>

definition narrow_console :: "string \<Rightarrow> exn option" where
  "narrow_console line =
     (if CHR 0xCE \<in> set line \<or> CHR 0xE2 \<in> set line
      then Some (UnicodeEncodeError ''charmap'')
      else None)"

definition toy_lib :: lib where
  "toy_lib =
     \<lparr>decompress = (\<lambda>b. if take 2 b = ''XZ'' then Inr (drop 2 b) else Inl (LZMAError ''format'')),
      str_exn = (\<lambda>e. case e of
                         FileNotFoundError p \<Rightarrow> ''No such file or directory''
                       | PermissionError p \<Rightarrow> ''Permission denied''
                       | LZMAError m \<Rightarrow> ''Input format not supported by decoder''
                       | UnicodeEncodeError m \<Rightarrow> ''character cannot be encoded'')\<rparr>"

definition no_links :: "path \<Rightarrow> path list" where
  "no_links p = []"

definition wide_console :: "string \<Rightarrow> exn option" where
  "wide_console line = None"

definition link_between :: "path \<Rightarrow> path \<Rightarrow> path \<Rightarrow> path list" where
  "link_between a b p = (if p = a then [b] else if p = b then [a] else [])"

section \<open>Properties of the Collector\<close>

lemma while_exists_unused: "\<not> exists fs (while_exists fs d base ext p c)"
proof (induction fs d base ext p c rule: while_exists.induct)
  case (1 fs d base ext p c)
  then show ?case by (subst while_exists.simps) simp
qed

lemma while_exists_fst: "fst p = d \<Longrightarrow> fst (while_exists fs d base ext p c) = d"
proof (induction fs d base ext p c rule: while_exists.induct)
  case (1 fs d base ext p c)
  then show ?case by (subst while_exists.simps) simp
qed

lemma destination_path_of_unused: "\<not> exists fs (destination_path_of fs d file)"
  by (simp add: destination_path_of_def Let_def while_exists_unused split: prod.split)

lemma destination_path_of_fst: "fst (destination_path_of fs d file) = d"
  by (simp add: destination_path_of_def Let_def while_exists_fst split: prod.split)

lemma copy2_unused:
  "\<not> exists fs dst \<Longrightarrow>
   copy2 fs src dst =
     (case open_rb fs src of Inl e \<Rightarrow> Inl e | Inr b \<Rightarrow> Inr (write_file dst b fs))"
  by (simp add: copy2_def open_wb_def exists_def write_file_def split: sum.split)

lemma open_rb_Inr: "open_rb fs p = Inr b \<longleftrightarrow> lookup fs p = Some (File b)"
  by (simp add: open_rb_def split: option.split node.split)

lemma collect_file_skip: "\<not> is_cnf file \<Longrightarrow> collect_file d root file s = (None, s)"
  by (simp add: collect_file_def)

lemma collect_file_raise:
  "is_cnf file \<Longrightarrow> open_rb (fsys s) (root, file) = Inl e \<Longrightarrow>
   collect_file d root file s = (Some e, s)"
  by (simp add: collect_file_def Let_def copy2_unused destination_path_of_unused)

lemma collect_file_copy:
  "is_cnf file \<Longrightarrow> open_rb (fsys s) (root, file) = Inr b \<Longrightarrow>
   collect_file d root file s =
     (None, s\<lparr>fsys := write_file (destination_path_of (fsys s) d file) b (fsys s),
              copied := copied s @ [((root, file), destination_path_of (fsys s) d file)]\<rparr>)"
  by (simp add: collect_file_def Let_def copy2_unused destination_path_of_unused)

lemma lookup_write_file:
  "lookup (write_file q b fs) p = (if p = q then Some (File b) else lookup fs p)"
  by (auto simp add: write_file_def)

lemma folders_write_file: "folders (write_file q b fs) = folders fs"
  by (simp add: write_file_def)

lemma exists_write_file: "exists (write_file q b fs) p \<longleftrightarrow> p = q \<or> exists fs p"
  by (simp add: exists_def lookup_write_file)

lemma collect_file_inv:
  assumes inv: "collector_inv fs0 d s" and step: "collect_file d root file s = (r, s')"
  shows "collector_inv fs0 d s'"
proof (cases "is_cnf file")
  case False
  with step inv show ?thesis by (simp add: collect_file_skip)
next
  case True
  show ?thesis
  proof (cases "open_rb (fsys s) (root, file)")
    case (Inl e)
    with True step inv show ?thesis by (simp add: collect_file_raise)
  next
    case (Inr b)
    let ?t = "destination_path_of (fsys s) d file"
    have s': "s' = s\<lparr>fsys := write_file ?t b (fsys s), copied := copied s @ [((root, file), ?t)]\<rparr>"
      using step collect_file_copy [OF True Inr, of d] by simp
    have unused: "\<not> exists (fsys s) ?t" by (rule destination_path_of_unused)
    have src: "lookup (fsys s) (root, file) = Some (File b)"
      using Inr by (simp add: open_rb_Inr)
    from inv have i1: "\<And>p. exists fs0 p \<Longrightarrow> lookup (fsys s) p = lookup fs0 p"
      and i2: "\<And>p. exists (fsys s) p \<Longrightarrow> exists fs0 p \<or> p \<in> snd ` set (copied s)"
      and i3: "distinct (map snd (copied s))"
      and i4: "\<And>a t. (a, t) \<in> set (copied s) \<Longrightarrow> fst t = d \<and> \<not> exists fs0 t \<and>
        (\<exists>b. lookup (fsys s) a = Some (File b) \<and> lookup (fsys s) t = Some (File b))"
      and i5: "folders (fsys s) = folders fs0" "printed s = []"
      by (auto simp add: collector_inv_def)
    have fresh0: "\<not> exists fs0 ?t"
    proof
      assume "exists fs0 ?t"
      from i1 [OF this] this unused show False by (simp add: exists_def)
    qed
    have not_tgt: "?t \<notin> snd ` set (copied s)"
    proof
      assume "?t \<in> snd ` set (copied s)"
      then obtain a where "(a, ?t) \<in> set (copied s)" by auto
      from i4 [OF this] unused show False by (auto simp add: exists_def)
    qed
    have ne: "p \<noteq> ?t" if "exists (fsys s) p" for p
      using that unused by auto
    have c1: "\<forall>p. exists fs0 p \<longrightarrow> lookup (fsys s') p = lookup fs0 p"
      using i1 fresh0 by (auto simp add: s' lookup_write_file)
    have c2: "\<forall>p. exists (fsys s') p \<longrightarrow> exists fs0 p \<or> p \<in> snd ` set (copied s')"
      using i2 by (auto simp add: s' exists_write_file)
    have c3: "distinct (map snd (copied s'))"
      using i3 not_tgt by (simp add: s')
    have c4: "\<forall>(a, t) \<in> set (copied s').
        fst t = d \<and> \<not> exists fs0 t \<and>
        (\<exists>b. lookup (fsys s') a = Some (File b) \<and> lookup (fsys s') t = Some (File b))"
    proof (clarify)
      fix a1 a2 t1 t2 assume mem: "((a1, a2), (t1, t2)) \<in> set (copied s')"
      let ?a = "(a1, a2)" and ?u = "(t1, t2)"
      show "fst ?u = d \<and> \<not> exists fs0 ?u \<and>
        (\<exists>b. lookup (fsys s') ?a = Some (File b) \<and> lookup (fsys s') ?u = Some (File b))"
      proof (cases "(?a, ?u) \<in> set (copied s)")
        case True
        from i4 [OF True] obtain b' where
          old: "fst ?u = d" "\<not> exists fs0 ?u"
          "lookup (fsys s) ?a = Some (File b')" "lookup (fsys s) ?u = Some (File b')"
          by blast
        then have "?a \<noteq> ?t" "?u \<noteq> ?t" using ne by (auto simp add: exists_def)
        with old show ?thesis by (simp add: s' lookup_write_file)
      next
        case False
        with mem have eq: "?a = (root, file)" "?u = ?t" by (auto simp add: s')
        have "(root, file) \<noteq> ?t" using ne [of "(root, file)"] src by (simp add: exists_def)
        with src fresh0 show ?thesis
          unfolding eq by (simp add: s' lookup_write_file destination_path_of_fst)
      qed
    qed
    have c5: "folders (fsys s') = folders fs0" "printed s' = []"
      using i5 by (simp_all add: s' folders_write_file)
    from c1 c2 c3 c4 c5 show ?thesis
      unfolding collector_inv_def by blast
  qed
qed

lemma collect_list_inv:
  "collector_inv fs0 d s \<Longrightarrow> collect_list d vs s = (r, s') \<Longrightarrow> collector_inv fs0 d s'"
proof (induction vs arbitrary: s)
  case Nil
  then show ?case by simp
next
  case (Cons v vs)
  obtain root name where v: "v = (root, name)" by (cases v)
  obtain r1 s1 where step: "collect_file d root name s = (r1, s1)" by fastforce
  from collect_file_inv [OF Cons.prems(1) step] have inv1: "collector_inv fs0 d s1" .
  show ?case
  proof (cases r1)
    case None
    with Cons.prems(2) step v have "collect_list d vs s1 = (r, s')" by simp
    from Cons.IH [OF inv1 this] show ?thesis .
  next
    case (Some e)
    with Cons.prems(2) step v have "s' = s1" by simp
    with inv1 show ?thesis by simp
  qed
qed

lemma collect_list_append:
  "collect_list d (xs @ ys) s =
     (case collect_list d xs s of
        (Some e, s') \<Rightarrow> (Some e, s')
      | (None, s') \<Rightarrow> collect_list d ys s')"
  by (induction xs arbitrary: s) (auto split: prod.split option.split)

lemma collect_files_list: "collect_files d root files s = collect_list d (map (Pair root) files) s"
  by (induction files arbitrary: s) (auto split: prod.split option.split)

lemma collect_walk_list: "collect_walk d w s = collect_list d (visits w) s"
proof (induction w arbitrary: s)
  case Nil
  then show ?case by (simp add: visits_def)
next
  case (Cons t w)
  obtain root dirs files where t: "t = (root, dirs, files)" by (cases t)
  have "visits (t # w) = map (Pair root) files @ visits w"
    by (simp add: visits_def t)
  with Cons show ?case
    by (simp add: t collect_files_list collect_list_append split: prod.split option.split)
qed

lemma collector_inv_init: "collector_inv fs d0 \<lparr>fsys = fs, printed = [], copied = []\<rparr>"
  by (simp add: collector_inv_def)

lemma collect_list_sources:
  "collect_list d vs s = (None, s') \<Longrightarrow>
   map fst (copied s') = map fst (copied s) @ filter (\<lambda>(root, file). is_cnf file) vs"
proof (induction vs arbitrary: s)
  case Nil
  then show ?case by simp
next
  case (Cons v vs)
  obtain root name where v: "v = (root, name)" by (cases v)
  obtain r1 s1 where step: "collect_file d root name s = (r1, s1)" by fastforce
  with Cons.prems v have r1: "r1 = None" and rest: "collect_list d vs s1 = (None, s')"
    by (auto split: option.splits)
  have "map fst (copied s1) = map fst (copied s) @ (if is_cnf name then [(root, name)] else [])"
  proof (cases "is_cnf name")
    case False
    with step show ?thesis by (simp add: collect_file_skip)
  next
    case True
    show ?thesis
    proof (cases "open_rb (fsys s) (root, name)")
      case (Inl e)
      with True step r1 show ?thesis by (simp add: collect_file_raise)
    next
      case (Inr b)
      with True step show ?thesis by (auto simp add: collect_file_copy)
    qed
  qed
  with Cons.IH [OF rest] show ?case by (simp add: v)
qed

lemma exists_makedirs: "exists (makedirs d fs) p = exists fs p"
  by (simp add: exists_def makedirs_def)

lemma lookup_makedirs: "lookup (makedirs d fs) p = lookup fs p"
  by (simp add: makedirs_def)

lemma collector_cases:
  assumes "collector d w fs = (r, s)"
  obtains s1 where
    "collect_list d (visits w) \<lparr>fsys = makedirs d fs, printed = [], copied = []\<rparr> = (r, s1)"
    "fsys s = fsys s1" "copied s = copied s1"
    "printed s = (if r = None then printed s1 @ [''All CNF files collected successfully!''] else printed s1)"
proof -
  obtain r1 s1 where run: "collect_list d (visits w) \<lparr>fsys = makedirs d fs, printed = [], copied = []\<rparr> = (r1, s1)"
    by fastforce
  with assms have "r = r1 \<and> fsys s = fsys s1 \<and> copied s = copied s1 \<and>
    printed s = (if r = None then printed s1 @ [''All CNF files collected successfully!''] else printed s1)"
    by (auto simp add: collector_def collect_walk_list split: option.splits)
  with run that show thesis by blast
qed

lemma collector_inv_old:
  "collector_inv fs0 d s \<Longrightarrow> exists fs0 p \<Longrightarrow> lookup (fsys s) p = lookup fs0 p"
  unfolding collector_inv_def by blast

lemma collector_inv_new:
  "collector_inv fs0 d s \<Longrightarrow> exists (fsys s) p \<Longrightarrow> exists fs0 p \<or> p \<in> snd ` set (copied s)"
  unfolding collector_inv_def by blast

lemma collector_inv_copied:
  "collector_inv fs0 d s \<Longrightarrow> (a, t) \<in> set (copied s) \<Longrightarrow>
   fst t = d \<and> \<not> exists fs0 t \<and>
   (\<exists>b. lookup (fsys s) a = Some (File b) \<and> lookup (fsys s) t = Some (File b))"
  unfolding collector_inv_def by blast

lemma collector_inv_frame:
  assumes "collector_inv fs0 d s" "fst p \<noteq> d"
  shows "lookup (fsys s) p = lookup fs0 p"
proof (cases "exists fs0 p")
  case True
  with assms(1) show ?thesis by (rule collector_inv_old)
next
  case False
  have "\<not> exists (fsys s) p"
  proof
    assume "exists (fsys s) p"
    from collector_inv_new [OF assms(1) this] False
    obtain a where "(a, p) \<in> set (copied s)" by auto
    from collector_inv_copied [OF assms(1) this] assms(2) show False by simp
  qed
  with False show ?thesis by (simp add: exists_def)
qed

lemma collect_list_readable:
  assumes "collector_inv fs0 d s"
    and "\<forall>(r, f) \<in> set vs. is_cnf f \<longrightarrow> (\<exists>b. lookup fs0 (r, f) = Some (File b))"
  shows "\<exists>s'. collect_list d vs s = (None, s')"
  using assms
proof (induction vs arbitrary: s)
  case Nil
  then show ?case by simp
next
  case (Cons v vs)
  obtain root name where v: "v = (root, name)" by (cases v)
  have "\<exists>s1. collect_file d root name s = (None, s1)"
  proof (cases "is_cnf name")
    case False
    then show ?thesis by (simp add: collect_file_skip)
  next
    case True
    with Cons.prems(2) v obtain b where b: "lookup fs0 (root, name) = Some (File b)" by auto
    then have "exists fs0 (root, name)" by (simp add: exists_def)
    with Cons.prems(1) b have "lookup (fsys s) (root, name) = Some (File b)"
      by (simp add: collector_inv_old)
    then have "open_rb (fsys s) (root, name) = Inr b" by (simp add: open_rb_Inr)
    from collect_file_copy [OF True this] show ?thesis by blast
  qed
  then obtain s1 where step: "collect_file d root name s = (None, s1)" by blast
  from collect_file_inv [OF Cons.prems(1) step] have "collector_inv fs0 d s1" .
  from Cons.IH [OF this] Cons.prems(2) obtain s' where "collect_list d vs s1 = (None, s')"
    by auto
  with step v show ?case by simp
qed

text \<open>
  Claim C1. In every run of the Collector, over any walk and any initial file system,
  whatever the outcome: an entry that existed before the run is never written (its
  contents at the end are its contents at the start); the targets of the copies are
  pairwise different, lie in the destination folder and did not exist before the run,
  so that no copy overwrites a file that was there before or that an earlier copy of
  the same run created; each target holds the bytes of its source; and nothing else
  appears in the file system. When every visited file that passes the suffix test is
  a regular file, the run ends without an exception; and a run that ends without an
  exception has copied exactly the visited files that pass the suffix test, each once
  and in the order of the walk.
\<close>

theorem collector_no_overwrite:
  assumes "collector d w fs = (r, s)"
  shows "(\<forall>p. exists fs p \<longrightarrow> lookup (fsys s) p = lookup fs p) \<and>
         distinct (map snd (copied s)) \<and>
         (\<forall>(src, tgt) \<in> set (copied s).
            fst tgt = d \<and> \<not> exists fs tgt \<and>
            (\<exists>b. lookup (fsys s) src = Some (File b) \<and> lookup (fsys s) tgt = Some (File b))) \<and>
         (\<forall>p. exists (fsys s) p \<longrightarrow> exists fs p \<or> p \<in> snd ` set (copied s)) \<and>
         ((\<forall>(r0, f) \<in> set (matching w). \<exists>b. lookup fs (r0, f) = Some (File b)) \<longrightarrow> r = None) \<and>
         (r = None \<longrightarrow> map fst (copied s) = matching w)"
proof -
  from assms obtain s1 where
    run: "collect_list d (visits w) \<lparr>fsys = makedirs d fs, printed = [], copied = []\<rparr> = (r, s1)"
    and eq: "fsys s = fsys s1" "copied s = copied s1"
    by (rule collector_cases)
  from collect_list_inv [OF collector_inv_init run]
  have inv: "collector_inv (makedirs d fs) d s1" .
  have "r = None \<longrightarrow> map fst (copied s) = matching w"
    using collect_list_sources [of d "visits w" _ s1] run by (auto simp add: eq matching_def)
  moreover have "(\<forall>(r0, f) \<in> set (matching w). \<exists>b. lookup fs (r0, f) = Some (File b)) \<longrightarrow> r = None"
  proof
    assume "\<forall>(r0, f) \<in> set (matching w). \<exists>b. lookup fs (r0, f) = Some (File b)"
    then have "\<forall>(r0, f) \<in> set (visits w). is_cnf f \<longrightarrow>
        (\<exists>b. lookup (makedirs d fs) (r0, f) = Some (File b))"
      by (auto simp add: matching_def lookup_makedirs)
    from collect_list_readable [OF collector_inv_init [of "makedirs d fs" d] this] run
    show "r = None" by auto
  qed
  moreover from inv have "\<forall>p. exists fs p \<longrightarrow> lookup (fsys s) p = lookup fs p"
    by (simp add: collector_inv_def eq exists_makedirs lookup_makedirs)
  moreover from inv have "distinct (map snd (copied s))"
    by (simp add: collector_inv_def eq)
  moreover from inv have "\<forall>(src, tgt) \<in> set (copied s).
            fst tgt = d \<and> \<not> exists fs tgt \<and>
            (\<exists>b. lookup (fsys s) src = Some (File b) \<and> lookup (fsys s) tgt = Some (File b))"
    by (simp add: collector_inv_def eq exists_makedirs)
  moreover from inv have "\<forall>p. exists (fsys s) p \<longrightarrow> exists fs p \<or> p \<in> snd ` set (copied s)"
    by (simp add: collector_inv_def eq exists_makedirs)
  ultimately show ?thesis by blast
qed

lemmas run_simps = collector_def collect_file_def is_cnf_def endswith_def lower_def lower_char_def
  destination_path_of_def exists_def makedirs_def splitext_def while_exists.simps new_name_def
  str_nat.simps digit_def copy2_def open_rb_def open_wb_def write_file_def Let_def

theorem collector_no_overwrite_witness:
  "collector ''out'' [(''in'', [''x''], [''a.cnf'', ''notes.txt'']), (''in/x'', [], [''a.cnf''])]
       \<lparr>folders = {''in''},
        entries = fmupd (''in'', ''a.cnf'') (File ''p cnf 1 1'')
                    (fmupd (''in/x'', ''a.cnf'') (File ''p cnf 2 2'')
                    (fmupd (''out'', ''a.cnf'') (File ''old'') fmempty))\<rparr>
     = (None,
        \<lparr>fsys = \<lparr>folders = {''out'', ''in''},
                 entries = fmupd (''out'', ''a_2.cnf'') (File ''p cnf 2 2'')
                    (fmupd (''out'', ''a_1.cnf'') (File ''p cnf 1 1'')
                    (fmupd (''in'', ''a.cnf'') (File ''p cnf 1 1'')
                    (fmupd (''in/x'', ''a.cnf'') (File ''p cnf 2 2'')
                    (fmupd (''out'', ''a.cnf'') (File ''old'') fmempty))))\<rparr>,
         printed = [''All CNF files collected successfully!''],
         copied = [((''in'', ''a.cnf''), (''out'', ''a_1.cnf'')),
                   ((''in/x'', ''a.cnf''), (''out'', ''a_2.cnf''))]\<rparr>) \<and>
   fmlookup (fmupd (''out'', ''a_2.cnf'') (File ''p cnf 2 2'')
                    (fmupd (''out'', ''a_1.cnf'') (File ''p cnf 1 1'')
                    (fmupd (''in'', ''a.cnf'') (File ''p cnf 1 1'')
                    (fmupd (''in/x'', ''a.cnf'') (File ''p cnf 2 2'')
                    (fmupd (''out'', ''a.cnf'') (File ''old'') fmempty))))) (''out'', ''a.cnf'')
     = Some (File ''old'') \<and>
   distinct [(''out'', ''a_1.cnf''), (''out'', ''a_2.cnf'')] \<and>
   [(''in'', ''a.cnf''), (''in/x'', ''a.cnf'')]
     = matching [(''in'', [''x''], [''a.cnf'', ''notes.txt'']), (''in/x'', [], [''a.cnf''])]"
proof -
  have run: "collector ''out'' [(''in'', [''x''], [''a.cnf'', ''notes.txt'']), (''in/x'', [], [''a.cnf''])]
       \<lparr>folders = {''in''},
        entries = fmupd (''in'', ''a.cnf'') (File ''p cnf 1 1'')
                    (fmupd (''in/x'', ''a.cnf'') (File ''p cnf 2 2'')
                    (fmupd (''out'', ''a.cnf'') (File ''old'') fmempty))\<rparr>
     = (None,
        \<lparr>fsys = \<lparr>folders = {''out'', ''in''},
                 entries = fmupd (''out'', ''a_2.cnf'') (File ''p cnf 2 2'')
                    (fmupd (''out'', ''a_1.cnf'') (File ''p cnf 1 1'')
                    (fmupd (''in'', ''a.cnf'') (File ''p cnf 1 1'')
                    (fmupd (''in/x'', ''a.cnf'') (File ''p cnf 2 2'')
                    (fmupd (''out'', ''a.cnf'') (File ''old'') fmempty))))\<rparr>,
         printed = [''All CNF files collected successfully!''],
         copied = [((''in'', ''a.cnf''), (''out'', ''a_1.cnf'')),
                   ((''in/x'', ''a.cnf''), (''out'', ''a_2.cnf''))]\<rparr>)"
    by (simp add: run_simps)
  from collector_no_overwrite [OF run] run show ?thesis
    by (simp add: exists_def)
qed

lemma while_exists_least:
  "exists fs p \<Longrightarrow>
   \<exists>N\<ge>c. while_exists fs d base ext p c = (d, new_name base ext N)
     \<and> (\<forall>k. c \<le> k \<and> k < N \<longrightarrow> exists fs (d, new_name base ext k))"
proof (induction fs d base ext p c rule: while_exists.induct)
  case (1 fs d base ext p c)
  let ?q = "(d, new_name base ext c)"
  have step: "while_exists fs d base ext p c = while_exists fs d base ext ?q (c + 1)"
    using "1.prems" by (subst while_exists.simps) simp
  show ?case
  proof (cases "exists fs ?q")
    case True
    from "1.IH" [OF "1.prems" True] obtain N where N: "c + 1 \<le> N"
      "while_exists fs d base ext ?q (c + 1) = (d, new_name base ext N)"
      "\<forall>k. c + 1 \<le> k \<and> k < N \<longrightarrow> exists fs (d, new_name base ext k)"
      by blast
    have "\<forall>k. c \<le> k \<and> k < N \<longrightarrow> exists fs (d, new_name base ext k)"
    proof (intro allI impI)
      fix k assume "c \<le> k \<and> k < N"
      then have "k = c \<or> (c + 1 \<le> k \<and> k < N)" by arith
      with True N(3) show "exists fs (d, new_name base ext k)" by blast
    qed
    with N(1,2) step show ?thesis
      by (intro exI [of _ N]) simp
  next
    case False
    then have "while_exists fs d base ext ?q (c + 1) = ?q"
      by (subst while_exists.simps) simp
    with step show ?thesis by (intro exI [of _ c]) auto
  qed
qed

lemma rfind_dot_bound: "rfind_dot p = Some i \<Longrightarrow> i < length p"
  by (induction p arbitrary: i) (auto split: option.splits if_splits)

lemma splitext_append: "splitext p = (base, ext) \<Longrightarrow> base @ ext = p"
  by (auto simp add: splitext_def split: option.splits if_splits)

lemma destination_path_of_collision:
  assumes "exists fs (d, file)"
  shows "\<exists>N base ext. splitext file = (base, ext) \<and> base @ ext = file \<and> 0 < N \<and>
           destination_path_of fs d file = (d, new_name base ext N) \<and>
           (\<forall>k. 0 < k \<and> k < N \<longrightarrow> exists fs (d, new_name base ext k))"
proof -
  obtain base ext where sp: "splitext file = (base, ext)" by fastforce
  from while_exists_least [OF assms, of 1 d base ext] obtain N where
    "1 \<le> N" "while_exists fs d base ext (d, file) 1 = (d, new_name base ext N)"
    "\<forall>k. 1 \<le> k \<and> k < N \<longrightarrow> exists fs (d, new_name base ext k)"
    by blast
  with assms sp splitext_append [OF sp] show ?thesis
    by (intro exI [of _ N] exI [of _ base] exI [of _ ext])
       (simp add: destination_path_of_def Suc_le_eq)
qed

lemma collect_file_None:
  assumes "is_cnf file" "collect_file d root file s = (None, s')"
  obtains b where "lookup (fsys s) (root, file) = Some (File b)"
    "s' = s\<lparr>fsys := write_file (destination_path_of (fsys s) d file) b (fsys s),
             copied := copied s @ [((root, file), destination_path_of (fsys s) d file)]\<rparr>"
proof (cases "open_rb (fsys s) (root, file)")
  case (Inl e)
  with assms show ?thesis by (simp add: collect_file_raise)
next
  case (Inr b)
  with assms that [of b] show ?thesis by (simp add: collect_file_copy open_rb_Inr)
qed

lemma scenario:
  assumes empty: "\<forall>n. \<not> exists fs (d, n)"
    and src: "lookup fs (r1, ''a.cnf'') = Some (File b1)"
      "lookup fs (r2, ''a.cnf'') = Some (File b2)"
      "lookup fs (r3, ''a.cnf'') = Some (File b3)"
  shows "\<exists>s. collector d [(r1, ds1, [''a.cnf'']), (r2, ds2, [''a.cnf'']), (r3, ds3, [''a.cnf''])] fs = (None, s) \<and>
     {n. exists (fsys s) (d, n)} = {''a.cnf'', ''a_1.cnf'', ''a_2.cnf''} \<and>
     lookup (fsys s) (d, ''a.cnf'') = Some (File b1) \<and>
     lookup (fsys s) (d, ''a_1.cnf'') = Some (File b2) \<and>
     lookup (fsys s) (d, ''a_2.cnf'') = Some (File b3)"
proof -
  from empty have e: "\<And>n. lookup fs (d, n) = None" by (simp add: exists_def)
  with src have ne: "r1 \<noteq> d" "r2 \<noteq> d" "r3 \<noteq> d" by auto
  show ?thesis using e ne src
    by (auto simp add: run_simps)
qed

subsection \<open>File names\<close>

lemma lower_char_eq_dot: "lower_char c = CHR ''.'' \<longleftrightarrow> c = CHR ''.''"
  by (auto simp add: lower_char_def)

lemma lower_char_letters:
  "lower_char c = CHR ''c'' \<Longrightarrow> c \<noteq> CHR ''.''"
  "lower_char c = CHR ''n'' \<Longrightarrow> c \<noteq> CHR ''.''"
  "lower_char c = CHR ''f'' \<Longrightarrow> c \<noteq> CHR ''.''"
  "lower_char c = CHR ''x'' \<Longrightarrow> c \<noteq> CHR ''.''"
  "lower_char c = CHR ''z'' \<Longrightarrow> c \<noteq> CHR ''.''"
  by (auto simp add: lower_char_def)

lemma lower_xz:
  assumes "lower xz = ''.xz''"
  obtains x z where "xz = [CHR ''.'', x, z]" "lower_char x = CHR ''x''" "lower_char z = CHR ''z''"
proof -
  from assms have "length xz = 3" by (metis length_map lower_def length_Cons list.size(3) numeral_3_eq_3)
  then obtain a x z where "xz = [a, x, z]"
    by (auto simp add: length_Suc_conv numeral_3_eq_3)
  with assms that show thesis by (auto simp add: lower_def lower_char_eq_dot)
qed

lemma lower_cnf:
  assumes "lower cnf = ''.cnf''"
  obtains c n f where "cnf = [CHR ''.'', c, n, f]"
    "lower_char c = CHR ''c''" "lower_char n = CHR ''n''" "lower_char f = CHR ''f''"
proof -
  from assms have "length cnf = 4" by (metis length_map lower_def length_Cons list.size(3) numeral_Bit0 Suc_numeral add_2_eq_Suc' numeral_2_eq_2 semiring_norm(2) semiring_norm(8))
  then obtain a c n f where "cnf = [a, c, n, f]"
    by (auto simp add: length_Suc_conv eval_nat_numeral)
  with assms that show thesis by (auto simp add: lower_def lower_char_eq_dot)
qed

lemma rfind_dot_append:
  "rfind_dot (xs @ ys) =
     (case rfind_dot ys of Some i \<Rightarrow> Some (length xs + i) | None \<Rightarrow> rfind_dot xs)"
  by (induction xs) (auto split: option.splits)

lemma splitext_cnf_xz:
  assumes "lower cnf = ''.cnf''" "lower xz = ''.xz''"
  shows "splitext (stem @ cnf @ xz) = (stem @ cnf, xz)"
proof -
  from assms(2) obtain x z where xz: "xz = [CHR ''.'', x, z]"
    "lower_char x = CHR ''x''" "lower_char z = CHR ''z''" by (rule lower_xz)
  from assms(1) obtain c n f where cnf: "cnf = [CHR ''.'', c, n, f]"
    "lower_char c = CHR ''c''" "lower_char n = CHR ''n''" "lower_char f = CHR ''f''"
    by (rule lower_cnf)
  from xz have "x \<noteq> CHR ''.''" "z \<noteq> CHR ''.''" by (auto dest: lower_char_letters)
  then have "rfind_dot xz = Some 0" by (simp add: xz)
  then have "rfind_dot ((stem @ cnf) @ xz) = Some (length (stem @ cnf))"
    by (simp only: rfind_dot_append) simp
  moreover have "list_ex (\<lambda>c. c \<noteq> CHR ''.'') (stem @ cnf)"
    using cnf by (auto dest: lower_char_letters)
  ultimately show ?thesis by (simp add: splitext_def)
qed

lemma endswith_split:
  "endswith s suf \<longleftrightarrow> (\<exists>pre. s = pre @ suf)"
  by (auto simp add: endswith_def) (metis append_take_drop_id)

lemma lower_append_eq:
  "lower s = a @ b \<longleftrightarrow> (\<exists>u v. s = u @ v \<and> lower u = a \<and> lower v = b)"
  by (auto simp add: lower_def map_eq_append_conv)

lemma matches_cnf_xz:
  assumes "endswith (lower file) ''.cnf.xz''"
  obtains stem cnf xz where "file = stem @ cnf @ xz" "lower cnf = ''.cnf''" "lower xz = ''.xz''"
proof -
  from assms obtain pre where "lower file = pre @ ''.cnf.xz''"
    by (auto simp add: endswith_split)
  then obtain u v where uv: "file = u @ v" "lower v = ''.cnf.xz''"
    by (auto simp add: lower_append_eq)
  from uv(2) have "lower v = ''.cnf'' @ ''.xz''" by simp
  then obtain a b where "v = a @ b" "lower a = ''.cnf''" "lower b = ''.xz''"
    unfolding lower_append_eq by blast
  with uv that show thesis by blast
qed

lemma matches_cnf:
  assumes "endswith (lower file) ''.cnf''"
  obtains stem cnf where "file = stem @ cnf" "lower cnf = ''.cnf''"
  using assms by (auto simp add: endswith_split lower_append_eq)

lemma str_nat_not_Nil: "str_nat n \<noteq> []"
  by (subst str_nat.simps) simp

lemma digit_not_z: "d < 10 \<Longrightarrow> lower_char (digit d) \<noteq> CHR ''z''"
proof -
  assume "d < 10"
  then have "d \<in> {0, 1, 2, 3, 4, 5, 6, 7, 8, 9}" by auto
  then show ?thesis by (auto simp add: digit_def lower_char_def)
qed

lemma last_str_nat: "lower_char (last (str_nat n)) \<noteq> CHR ''z''"
  by (subst str_nat.simps) (simp add: digit_not_z)

lemma renamed_cnf_xz_last:
  assumes "endswith (lower f) ''.cnf.xz''" "splitext f = (b, e)"
  shows "lower_char (last (new_name b e N)) = CHR ''z''"
proof -
  from assms(1) obtain stem cnf xz where
    f: "f = stem @ cnf @ xz" "lower cnf = ''.cnf''" "lower xz = ''.xz''"
    by (rule matches_cnf_xz)
  with assms(2) have e: "e = xz" by (simp add: splitext_cnf_xz)
  from f(3) obtain x z where "xz = [CHR ''.'', x, z]" "lower_char z = CHR ''z''"
    by (rule lower_xz)
  with e show ?thesis by (simp add: new_name_def)
qed

lemma renamed_cnf_last:
  assumes "endswith (lower g) ''.cnf''" "splitext g = (b, e)"
  shows "lower_char (last (new_name b e M)) \<noteq> CHR ''z''"
proof (cases "e = []")
  case True
  then show ?thesis by (simp add: new_name_def str_nat_not_Nil last_str_nat)
next
  case False
  from assms(1) obtain stem cnf where g: "g = stem @ cnf" "lower cnf = ''.cnf''"
    by (rule matches_cnf)
  from g(2) obtain c n f where "cnf = [CHR ''.'', c, n, f]" "lower_char f = CHR ''f''"
    by (rule lower_cnf)
  with g have "lower_char (last g) = CHR ''f''" by simp
  moreover from splitext_append [OF assms(2)] False have "last g = last e"
    by (metis last_appendR)
  ultimately show ?thesis using False by (simp add: new_name_def)
qed

subsection \<open>Collision resolution\<close>

text \<open>
  Claim C2. When a file passes the suffix test, is a regular file, and its name
  already exists in the destination folder, the Collector copies it to the name
  \<open>base_N.ext\<close>, where \<open>(base, ext)\<close> is \<^verbatim>\<open>os.path.splitext\<close> of the name (so \<open>_N\<close> stands
  before the extension) and \<open>N\<close> is the least positive number whose candidate name
  does not exist: every candidate below \<open>N\<close> was checked and exists. The new file has
  the bytes of the source, and the existing file of the original name is left as it
  is. In particular, for three visited files \<^verbatim>\<open>a.cnf\<close> (in any three folders of the
  walk) and a destination folder that is empty at the start, the run ends without
  exception and the destination folder holds exactly \<^verbatim>\<open>a.cnf\<close>, \<^verbatim>\<open>a_1.cnf\<close> and
  \<^verbatim>\<open>a_2.cnf\<close>, with the bytes of the first, second and third file.
\<close>

theorem collector_collision_resolution:
  "(\<forall>d root file s b.
      is_cnf file \<and> exists (fsys s) (d, file) \<and> lookup (fsys s) (root, file) = Some (File b) \<longrightarrow>
      (\<exists>N base ext s'.
         collect_file d root file s = (None, s') \<and>
         splitext file = (base, ext) \<and> base @ ext = file \<and> 0 < N \<and>
         \<not> exists (fsys s) (d, new_name base ext N) \<and>
         (\<forall>k. 0 < k \<and> k < N \<longrightarrow> exists (fsys s) (d, new_name base ext k)) \<and>
         copied s' = copied s @ [((root, file), (d, new_name base ext N))] \<and>
         lookup (fsys s') (d, new_name base ext N) = Some (File b) \<and>
         lookup (fsys s') (d, file) = lookup (fsys s) (d, file))) \<and>
   (\<forall>d fs r1 r2 r3 ds1 ds2 ds3 b1 b2 b3.
      (\<forall>n. \<not> exists fs (d, n)) \<and>
      lookup fs (r1, ''a.cnf'') = Some (File b1) \<and>
      lookup fs (r2, ''a.cnf'') = Some (File b2) \<and>
      lookup fs (r3, ''a.cnf'') = Some (File b3) \<longrightarrow>
      (\<exists>s. collector d [(r1, ds1, [''a.cnf'']), (r2, ds2, [''a.cnf'']), (r3, ds3, [''a.cnf''])] fs
             = (None, s) \<and>
           {n. exists (fsys s) (d, n)} = {''a.cnf'', ''a_1.cnf'', ''a_2.cnf''} \<and>
           lookup (fsys s) (d, ''a.cnf'') = Some (File b1) \<and>
           lookup (fsys s) (d, ''a_1.cnf'') = Some (File b2) \<and>
           lookup (fsys s) (d, ''a_2.cnf'') = Some (File b3)))"
proof (intro conjI allI impI)
  fix d root name :: string and s :: cstate and b :: bytes
  assume h: "is_cnf name \<and> exists (fsys s) (d, name) \<and>
      lookup (fsys s) (root, name) = Some (File b)"
  let ?t = "destination_path_of (fsys s) d name"
  let ?s' = "s\<lparr>fsys := write_file ?t b (fsys s), copied := copied s @ [((root, name), ?t)]\<rparr>"
  from h have "open_rb (fsys s) (root, name) = Inr b" by (simp add: open_rb_Inr)
  with h have step: "collect_file d root name s = (None, ?s')"
    by (simp add: collect_file_copy)
  from h destination_path_of_collision [of "fsys s" d name] obtain N base ext where
    N: "splitext name = (base, ext)" "base @ ext = name" "0 < N"
      "?t = (d, new_name base ext N)"
      "\<forall>k. 0 < k \<and> k < N \<longrightarrow> exists (fsys s) (d, new_name base ext k)"
    by blast
  have unused: "\<not> exists (fsys s) (d, new_name base ext N)"
    using destination_path_of_unused [of "fsys s" d name] by (simp add: N(4))
  with h have ne: "(d, name) \<noteq> (d, new_name base ext N)" by auto
  show "\<exists>N base ext s'.
         collect_file d root name s = (None, s') \<and>
         splitext name = (base, ext) \<and> base @ ext = name \<and> 0 < N \<and>
         \<not> exists (fsys s) (d, new_name base ext N) \<and>
         (\<forall>k. 0 < k \<and> k < N \<longrightarrow> exists (fsys s) (d, new_name base ext k)) \<and>
         copied s' = copied s @ [((root, name), (d, new_name base ext N))] \<and>
         lookup (fsys s') (d, new_name base ext N) = Some (File b) \<and>
         lookup (fsys s') (d, name) = lookup (fsys s) (d, name)"
    using N unused ne step
    by (intro exI [of _ N] exI [of _ base] exI [of _ ext] exI [of _ ?s'])
       (simp add: lookup_write_file)
next
  fix d :: string and fs :: filesys and r1 r2 r3 :: string and ds1 ds2 ds3 :: "string list"
    and b1 b2 b3 :: bytes
  assume h: "(\<forall>n. \<not> exists fs (d, n)) \<and>
      lookup fs (r1, ''a.cnf'') = Some (File b1) \<and>
      lookup fs (r2, ''a.cnf'') = Some (File b2) \<and>
      lookup fs (r3, ''a.cnf'') = Some (File b3)"
  then show "\<exists>s. collector d [(r1, ds1, [''a.cnf'']), (r2, ds2, [''a.cnf'']), (r3, ds3, [''a.cnf''])] fs
             = (None, s) \<and>
           {n. exists (fsys s) (d, n)} = {''a.cnf'', ''a_1.cnf'', ''a_2.cnf''} \<and>
           lookup (fsys s) (d, ''a.cnf'') = Some (File b1) \<and>
           lookup (fsys s) (d, ''a_1.cnf'') = Some (File b2) \<and>
           lookup (fsys s) (d, ''a_2.cnf'') = Some (File b3)"
    using scenario [of fs d r1 b1 r2 b2 r3 b3 ds1 ds2 ds3] by blast
qed

theorem collector_collision_resolution_witness:
  "is_cnf ''a.cnf'' \<and>
   exists (fsys \<lparr>fsys = \<lparr>folders = {''out''},
                          entries = fmupd (''in'', ''a.cnf'') (File ''new'')
                                   (fmupd (''out'', ''a.cnf'') (File ''old'')
                                   (fmupd (''out'', ''a_1.cnf'') (File ''older'') fmempty))\<rparr>,
                  printed = [], copied = []\<rparr>) (''out'', ''a.cnf'') \<and>
   lookup (fsys \<lparr>fsys = \<lparr>folders = {''out''},
                          entries = fmupd (''in'', ''a.cnf'') (File ''new'')
                                   (fmupd (''out'', ''a.cnf'') (File ''old'')
                                   (fmupd (''out'', ''a_1.cnf'') (File ''older'') fmempty))\<rparr>,
                  printed = [], copied = []\<rparr>) (''in'', ''a.cnf'') = Some (File ''new'') \<and>
   collect_file ''out'' ''in'' ''a.cnf''
      \<lparr>fsys = \<lparr>folders = {''out''},
               entries = fmupd (''in'', ''a.cnf'') (File ''new'')
                        (fmupd (''out'', ''a.cnf'') (File ''old'')
                        (fmupd (''out'', ''a_1.cnf'') (File ''older'') fmempty))\<rparr>,
       printed = [], copied = []\<rparr>
     = (None,
        \<lparr>fsys = \<lparr>folders = {''out''},
                 entries = fmupd (''out'', ''a_2.cnf'') (File ''new'')
                          (fmupd (''in'', ''a.cnf'') (File ''new'')
                          (fmupd (''out'', ''a.cnf'') (File ''old'')
                          (fmupd (''out'', ''a_1.cnf'') (File ''older'') fmempty)))\<rparr>,
         printed = [], copied = [((''in'', ''a.cnf''), (''out'', ''a_2.cnf''))]\<rparr>) \<and>
   (\<exists>N base ext. splitext ''a.cnf'' = (base, ext) \<and> base @ ext = ''a.cnf'' \<and> 0 < N \<and>
      [((''in'', ''a.cnf''), (''out'', ''a_2.cnf''))]
        = [((''in'', ''a.cnf''), (''out'', new_name base ext N))]) \<and>
   (\<forall>n. \<not> exists \<lparr>folders = {},
                     entries = fmupd (''src'', ''a.cnf'') (File ''1'')
                              (fmupd (''src/sub'', ''a.cnf'') (File ''2'')
                              (fmupd (''src/sub2'', ''a.cnf'') (File ''3'') fmempty))\<rparr> (''dst'', n)) \<and>
   (\<exists>s. collector ''dst'' [(''src'', [''sub'', ''sub2''], [''a.cnf'']), (''src/sub'', [], [''a.cnf'']),
                           (''src/sub2'', [], [''a.cnf''])]
           \<lparr>folders = {},
            entries = fmupd (''src'', ''a.cnf'') (File ''1'')
                     (fmupd (''src/sub'', ''a.cnf'') (File ''2'')
                     (fmupd (''src/sub2'', ''a.cnf'') (File ''3'') fmempty))\<rparr> = (None, s) \<and>
        {n. exists (fsys s) (''dst'', n)} = {''a.cnf'', ''a_1.cnf'', ''a_2.cnf''})"
proof -
  let ?s = "\<lparr>fsys = \<lparr>folders = {''out''},
               entries = fmupd (''in'', ''a.cnf'') (File ''new'')
                        (fmupd (''out'', ''a.cnf'') (File ''old'')
                        (fmupd (''out'', ''a_1.cnf'') (File ''older'') fmempty))\<rparr>,
       printed = [], copied = []\<rparr> :: cstate"
  let ?s' = "\<lparr>fsys = \<lparr>folders = {''out''},
                 entries = fmupd (''out'', ''a_2.cnf'') (File ''new'')
                          (fmupd (''in'', ''a.cnf'') (File ''new'')
                          (fmupd (''out'', ''a.cnf'') (File ''old'')
                          (fmupd (''out'', ''a_1.cnf'') (File ''older'') fmempty)))\<rparr>,
         printed = [], copied = [((''in'', ''a.cnf''), (''out'', ''a_2.cnf''))]\<rparr> :: cstate"
  let ?fs = "\<lparr>folders = {},
            entries = fmupd (''src'', ''a.cnf'') (File ''1'')
                     (fmupd (''src/sub'', ''a.cnf'') (File ''2'')
                     (fmupd (''src/sub2'', ''a.cnf'') (File ''3'') fmempty))\<rparr> :: filesys"
  have h: "is_cnf ''a.cnf'' \<and> exists (fsys ?s) (''out'', ''a.cnf'') \<and>
      lookup (fsys ?s) (''in'', ''a.cnf'') = Some (File ''new'')"
    by (simp add: run_simps)
  have run: "collect_file ''out'' ''in'' ''a.cnf'' ?s = (None, ?s')"
    by (simp add: run_simps)
  have g: "(\<forall>n. \<not> exists ?fs (''dst'', n)) \<and>
      lookup ?fs (''src'', ''a.cnf'') = Some (File ''1'') \<and>
      lookup ?fs (''src/sub'', ''a.cnf'') = Some (File ''2'') \<and>
      lookup ?fs (''src/sub2'', ''a.cnf'') = Some (File ''3'')"
    by (simp add: exists_def)
  from collector_collision_resolution [THEN conjunct1, rule_format, OF h]
  have "\<exists>N base ext. splitext ''a.cnf'' = (base, ext) \<and> base @ ext = ''a.cnf'' \<and> 0 < N \<and>
      [((''in'', ''a.cnf''), (''out'', ''a_2.cnf''))]
        = [((''in'', ''a.cnf''), (''out'', new_name base ext N))]"
    unfolding run by simp blast
  moreover
  from collector_collision_resolution [THEN conjunct2, rule_format, OF g,
      of "[''sub'', ''sub2'']" "[]" "[]"]
  have "\<exists>s. collector ''dst'' [(''src'', [''sub'', ''sub2''], [''a.cnf'']), (''src/sub'', [], [''a.cnf'']),
                           (''src/sub2'', [], [''a.cnf''])] ?fs = (None, s) \<and>
        {n. exists (fsys s) (''dst'', n)} = {''a.cnf'', ''a_1.cnf'', ''a_2.cnf''}"
    by blast
  ultimately show ?thesis using h run g by blast
qed

text \<open>
  Claim C9. For a name \<open>stem @ cnf @ xz\<close> whose last seven characters are \<^verbatim>\<open>.cnf.xz\<close>
  in any casing, \<^verbatim>\<open>os.path.splitext\<close> splits before the last extension only, so the
  renamed file is \<open>stem.cnf_N.xz\<close> and not \<open>stem_N.cnf.xz\<close>, and this is the name the
  Collector resolves a collision to. Consequently the renamed form of a name ending
  in \<^verbatim>\<open>.cnf.xz\<close> is never the renamed form of a name ending in \<^verbatim>\<open>.cnf\<close>, whatever
  the two counters are.
\<close>

theorem rename_splits_last_extension:
  "(\<forall>stem cnf xz N.
      lower cnf = ''.cnf'' \<and> lower xz = ''.xz'' \<longrightarrow>
      splitext (stem @ cnf @ xz) = (stem @ cnf, xz) \<and>
      new_name (stem @ cnf) xz N = stem @ cnf @ ''_'' @ str_nat N @ xz \<and>
      new_name (stem @ cnf) xz N \<noteq> stem @ ''_'' @ str_nat N @ cnf @ xz \<and>
      (\<forall>fs d. exists fs (d, stem @ cnf @ xz) \<longrightarrow>
         (\<exists>K>0. destination_path_of fs d (stem @ cnf @ xz)
                 = (d, stem @ cnf @ ''_'' @ str_nat K @ xz)))) \<and>
   (\<forall>f g b1 e1 b2 e2 N M.
      endswith (lower f) ''.cnf.xz'' \<and> endswith (lower g) ''.cnf'' \<and>
      splitext f = (b1, e1) \<and> splitext g = (b2, e2) \<longrightarrow>
      new_name b1 e1 N \<noteq> new_name b2 e2 M)"
proof (intro conjI allI impI)
  fix stem cnf xz :: string and N :: nat
  assume h: "lower cnf = ''.cnf'' \<and> lower xz = ''.xz''"
  then show sp: "splitext (stem @ cnf @ xz) = (stem @ cnf, xz)"
    by (simp add: splitext_cnf_xz)
  show "new_name (stem @ cnf) xz N = stem @ cnf @ ''_'' @ str_nat N @ xz"
    by (simp add: new_name_def)
  from h obtain c n f where "cnf = [CHR ''.'', c, n, f]" by (blast elim: lower_cnf)
  then show "new_name (stem @ cnf) xz N \<noteq> stem @ ''_'' @ str_nat N @ cnf @ xz"
    by (simp add: new_name_def)
  fix fs :: filesys and d :: string
  assume "exists fs (d, stem @ cnf @ xz)"
  from destination_path_of_collision [OF this] sp
  show "\<exists>K>0. destination_path_of fs d (stem @ cnf @ xz)
                 = (d, stem @ cnf @ ''_'' @ str_nat K @ xz)"
    by (auto simp add: new_name_def)
next
  fix f g b1 e1 b2 e2 :: string and N M :: nat
  assume h: "endswith (lower f) ''.cnf.xz'' \<and> endswith (lower g) ''.cnf'' \<and>
      splitext f = (b1, e1) \<and> splitext g = (b2, e2)"
  then have "lower_char (last (new_name b1 e1 N)) = CHR ''z''"
    using renamed_cnf_xz_last [of f b1 e1 N] by simp
  moreover from h have "lower_char (last (new_name b2 e2 M)) \<noteq> CHR ''z''"
    using renamed_cnf_last [of g b2 e2 M] by simp
  ultimately show "new_name b1 e1 N \<noteq> new_name b2 e2 M" by auto
qed

theorem rename_splits_last_extension_witness:
  "lower ''.cnf'' = ''.cnf'' \<and> lower ''.xz'' = ''.xz'' \<and>
   splitext ''name.cnf.xz'' = (''name.cnf'', ''.xz'') \<and>
   new_name ''name.cnf'' ''.xz'' 1 = ''name.cnf_1.xz'' \<and>
   new_name ''name.cnf'' ''.xz'' 1 \<noteq> ''name_1.cnf.xz'' \<and>
   endswith (lower ''A.CNF.XZ'') ''.cnf.xz'' \<and> endswith (lower ''A.cnf'') ''.cnf'' \<and>
   splitext ''A.CNF.XZ'' = (''A.CNF'', ''.XZ'') \<and> splitext ''A.cnf'' = (''A'', ''.cnf'') \<and>
   new_name ''A.CNF'' ''.XZ'' 1 \<noteq> new_name ''A'' ''.cnf'' 1"
proof -
  have a: "lower ''.cnf'' = ''.cnf'' \<and> lower ''.xz'' = ''.xz''"
    by (simp add: lower_def lower_char_def)
  have b: "endswith (lower ''A.CNF.XZ'') ''.cnf.xz'' \<and> endswith (lower ''A.cnf'') ''.cnf'' \<and>
      splitext ''A.CNF.XZ'' = (''A.CNF'', ''.XZ'') \<and> splitext ''A.cnf'' = (''A'', ''.cnf'')"
    by (simp add: lower_def lower_char_def endswith_def splitext_def)
  from rename_splits_last_extension [THEN conjunct1, rule_format, OF a, of "''name''" 1]
       rename_splits_last_extension [THEN conjunct2, rule_format, OF b, of 1 1] a b
  show ?thesis by (simp add: str_nat.simps digit_def)
qed

text \<open>
  Claim C6. The Collector does not catch an exception of \<^verbatim>\<open>shutil.copy2\<close>. When the
  walk visits a file that passes the suffix test and cannot be opened (it is missing
  or refused; it lies outside the destination folder), and the matching files
  visited before it are regular files, the run ends with that very exception: the
  copies made are those of the files visited before, nothing else was created, so the
  files after the failing one are not copied, and the summary line is not printed.
\<close>

theorem collector_aborts_on_copy_error:
  assumes "visits w = pre @ (root, file) # post"
    and "\<forall>(r, f) \<in> set pre. is_cnf f \<longrightarrow> (\<exists>b. lookup fs (r, f) = Some (File b))"
    and "is_cnf file" and "open_rb fs (root, file) = Inl e" and "root \<noteq> d"
  shows "\<exists>s. collector d w fs = (Some e, s) \<and>
             printed s = [] \<and>
             map fst (copied s) = filter (\<lambda>(r, f). is_cnf f) pre \<and>
             (\<forall>p. exists (fsys s) p \<longrightarrow> exists fs p \<or> p \<in> snd ` set (copied s))"
proof -
  let ?s0 = "\<lparr>fsys = makedirs d fs, printed = [], copied = []\<rparr>"
  have inv0: "collector_inv (makedirs d fs) d ?s0" by (rule collector_inv_init)
  from assms(2) have "\<forall>(r, f) \<in> set pre. is_cnf f \<longrightarrow>
      (\<exists>b. lookup (makedirs d fs) (r, f) = Some (File b))"
    by (simp add: lookup_makedirs)
  from collect_list_readable [OF inv0 this] obtain s1 where
    pre: "collect_list d pre ?s0 = (None, s1)" by blast
  from collect_list_inv [OF inv0 pre] have inv1: "collector_inv (makedirs d fs) d s1" .
  from collector_inv_frame [OF inv1, of "(root, file)"] assms(5)
  have "lookup (fsys s1) (root, file) = lookup fs (root, file)"
    by (simp add: lookup_makedirs)
  with assms(4) have "open_rb (fsys s1) (root, file) = Inl e" by (simp add: open_rb_def)
  from collect_file_raise [OF assms(3) this]
  have "collect_list d ((root, file) # post) s1 = (Some e, s1)" by simp
  with pre have "collect_list d (visits w) ?s0 = (Some e, s1)"
    by (simp add: assms(1) collect_list_append)
  then have run: "collector d w fs = (Some e, s1)"
    by (simp add: collector_def collect_walk_list)
  from collect_list_sources [OF pre]
  have "map fst (copied s1) = filter (\<lambda>(r, f). is_cnf f) pre" by simp
  moreover from inv1 have "printed s1 = []"
    unfolding collector_inv_def by blast
  moreover have "\<forall>p. exists (fsys s1) p \<longrightarrow> exists fs p \<or> p \<in> snd ` set (copied s1)"
    using collector_inv_new [OF inv1] unfolding exists_makedirs by blast
  ultimately show ?thesis using run by simp
qed

theorem collector_aborts_on_copy_error_witness:
  "visits [(''in'', [], [''a.cnf'', ''b.cnf'', ''c.cnf''])]
     = [(''in'', ''a.cnf'')] @ (''in'', ''b.cnf'') # [(''in'', ''c.cnf'')] \<and>
   lookup \<lparr>folders = {''in''},
           entries = fmupd (''in'', ''a.cnf'') (File ''one'')
                    (fmupd (''in'', ''b.cnf'') Denied
                    (fmupd (''in'', ''c.cnf'') (File ''three'') fmempty))\<rparr> (''in'', ''a.cnf'')
     = Some (File ''one'') \<and>
   is_cnf ''b.cnf'' \<and>
   open_rb \<lparr>folders = {''in''},
            entries = fmupd (''in'', ''a.cnf'') (File ''one'')
                     (fmupd (''in'', ''b.cnf'') Denied
                     (fmupd (''in'', ''c.cnf'') (File ''three'') fmempty))\<rparr> (''in'', ''b.cnf'')
     = Inl (PermissionError (''in'', ''b.cnf'')) \<and>
   ''in'' \<noteq> ''out'' \<and>
   collector ''out'' [(''in'', [], [''a.cnf'', ''b.cnf'', ''c.cnf''])]
      \<lparr>folders = {''in''},
       entries = fmupd (''in'', ''a.cnf'') (File ''one'')
                (fmupd (''in'', ''b.cnf'') Denied
                (fmupd (''in'', ''c.cnf'') (File ''three'') fmempty))\<rparr>
     = (Some (PermissionError (''in'', ''b.cnf'')),
        \<lparr>fsys = \<lparr>folders = {''out'', ''in''},
                 entries = fmupd (''out'', ''a.cnf'') (File ''one'')
                          (fmupd (''in'', ''a.cnf'') (File ''one'')
                          (fmupd (''in'', ''b.cnf'') Denied
                          (fmupd (''in'', ''c.cnf'') (File ''three'') fmempty)))\<rparr>,
         printed = [], copied = [((''in'', ''a.cnf''), (''out'', ''a.cnf''))]\<rparr>)"
proof -
  have h1: "visits [(''in'', [], [''a.cnf'', ''b.cnf'', ''c.cnf''])]
     = [(''in'', ''a.cnf'')] @ (''in'', ''b.cnf'') # [(''in'', ''c.cnf'')]"
    by (simp add: visits_def)
  have h2: "\<forall>(r, f) \<in> set [(''in'', ''a.cnf'')]. is_cnf f \<longrightarrow>
      (\<exists>b. lookup \<lparr>folders = {''in''},
                     entries = fmupd (''in'', ''a.cnf'') (File ''one'')
                              (fmupd (''in'', ''b.cnf'') Denied
                              (fmupd (''in'', ''c.cnf'') (File ''three'') fmempty))\<rparr> (r, f)
           = Some (File b))"
    by simp
  have h3: "is_cnf ''b.cnf''"
    by (simp add: is_cnf_def endswith_def lower_def lower_char_def)
  have h4: "open_rb \<lparr>folders = {''in''},
            entries = fmupd (''in'', ''a.cnf'') (File ''one'')
                     (fmupd (''in'', ''b.cnf'') Denied
                     (fmupd (''in'', ''c.cnf'') (File ''three'') fmempty))\<rparr> (''in'', ''b.cnf'')
     = Inl (PermissionError (''in'', ''b.cnf''))"
    by (simp add: open_rb_def)
  have h5: "''in'' \<noteq> ''out''" by simp
  from collector_aborts_on_copy_error [OF h1 h2 h3 h4 h5] obtain s where
    "collector ''out'' [(''in'', [], [''a.cnf'', ''b.cnf'', ''c.cnf''])]
      \<lparr>folders = {''in''},
       entries = fmupd (''in'', ''a.cnf'') (File ''one'')
                (fmupd (''in'', ''b.cnf'') Denied
                (fmupd (''in'', ''c.cnf'') (File ''three'') fmempty))\<rparr>
     = (Some (PermissionError (''in'', ''b.cnf'')), s)" by blast
  moreover have "collector ''out'' [(''in'', [], [''a.cnf'', ''b.cnf'', ''c.cnf''])]
      \<lparr>folders = {''in''},
       entries = fmupd (''in'', ''a.cnf'') (File ''one'')
                (fmupd (''in'', ''b.cnf'') Denied
                (fmupd (''in'', ''c.cnf'') (File ''three'') fmempty))\<rparr>
     = (Some (PermissionError (''in'', ''b.cnf'')),
        \<lparr>fsys = \<lparr>folders = {''out'', ''in''},
                 entries = fmupd (''out'', ''a.cnf'') (File ''one'')
                          (fmupd (''in'', ''a.cnf'') (File ''one'')
                          (fmupd (''in'', ''b.cnf'') Denied
                          (fmupd (''in'', ''c.cnf'') (File ''three'') fmempty)))\<rparr>,
         printed = [], copied = [((''in'', ''a.cnf''), (''out'', ''a.cnf''))]\<rparr>)"
    by (simp add: run_simps)
  ultimately show ?thesis using h1 h3 h4 h5 by simp
qed

section \<open>Properties of the Extractor\<close>

lemma is_cnf_xz_length: "is_cnf_xz file \<Longrightarrow> 7 \<le> length file"
  by (simp add: endswith_def lower_def)

lemma cnf_filename_neq: "is_cnf_xz file \<Longrightarrow> cnf_filename file \<noteq> file"
proof
  assume a: "is_cnf_xz file" and eq: "cnf_filename file = file"
  have "length (cnf_filename file) = length file - 3" by simp
  also from is_cnf_xz_length [OF a] have "\<dots> < length file" by arith
  finally have "length (cnf_filename file) < length file" .
  then show False unfolding eq by simp
qed

lemma xz_path_neq: "is_cnf_xz file \<Longrightarrow> (src, file) \<noteq> (dst, cnf_filename file)"
  by (metis cnf_filename_neq snd_conv)

lemma cnf_filename_split:
  assumes "is_cnf_xz file"
  obtains stem cnf xz where "file = stem @ cnf @ xz" "lower cnf = ''.cnf''" "lower xz = ''.xz''"
    "cnf_filename file = stem @ cnf"
proof -
  from assms obtain stem cnf xz where
    f: "file = stem @ cnf @ xz" "lower cnf = ''.cnf''" "lower xz = ''.xz''"
    by (rule matches_cnf_xz)
  from f(3) have "length xz = 3" by (auto elim: lower_xz)
  with f(1) have "cnf_filename file = stem @ cnf" by simp
  with f that show thesis by blast
qed

lemma cnf_filename_not_xz:
  assumes "is_cnf_xz file"
  shows "\<not> is_cnf_xz (cnf_filename file)"
proof
  assume a: "is_cnf_xz (cnf_filename file)"
  from assms obtain stem cnf xz where f: "lower cnf = ''.cnf''" "cnf_filename file = stem @ cnf"
    by (rule cnf_filename_split)
  from a f(2) obtain pre where "lower (stem @ cnf) = pre @ ''.cnf.xz''"
    by (auto simp add: endswith_split)
  then have "last (lower (stem @ cnf)) = CHR ''z''" by simp
  moreover have "last (lower (stem @ cnf)) = CHR ''f''"
    using f(1) by (simp add: lower_def)
  ultimately show False by simp
qed

lemma try_extract_cases:
  assumes "xz \<noteq> cnf"
  shows "try_extract L fs xz cnf =
     (case lookup fs xz of
        None \<Rightarrow> (Some (FileNotFoundError xz), fs)
      | Some Denied \<Rightarrow> (Some (PermissionError xz), fs)
      | Some (File c) \<Rightarrow>
          if lookup fs cnf = Some Denied then (Some (PermissionError cnf), fs)
          else (case decompress L c of
                  Inl e \<Rightarrow> (Some e, write_file cnf [] fs)
                | Inr data \<Rightarrow> (None, write_file cnf data fs)))"
  using assms
  by (auto simp add: try_extract_def open_rb_def open_wb_def write_file_def
      split: option.split node.split sum.split)

lemma same_inputs_refl: "same_inputs fs fs"
  by (simp add: same_inputs_def)

lemma same_inputs_makedirs: "same_inputs fs fs' \<Longrightarrow> same_inputs fs (makedirs d fs')"
  by (simp add: same_inputs_def makedirs_def)

lemma same_inputs_xz:
  "same_inputs fs fs' \<Longrightarrow> is_cnf_xz (snd p) \<Longrightarrow> lookup fs' p = lookup fs p"
  unfolding same_inputs_def by blast

lemma same_inputs_Denied:
  "same_inputs fs fs' \<Longrightarrow> lookup fs' p = Some Denied \<longleftrightarrow> lookup fs p = Some Denied"
  unfolding same_inputs_def by blast

lemma same_inputs_write:
  assumes "same_inputs fs fs'" "\<not> is_cnf_xz (snd p)" "lookup fs' p \<noteq> Some Denied"
  shows "same_inputs fs (write_file p b fs')"
  unfolding same_inputs_def
proof (intro conjI allI impI)
  fix q :: path assume "is_cnf_xz (snd q)"
  with assms(2) have "q \<noteq> p" by auto
  with same_inputs_xz [OF assms(1) \<open>is_cnf_xz (snd q)\<close>]
  show "lookup (write_file p b fs') q = lookup fs q" by (simp add: lookup_write_file)
next
  fix q :: path
  show "lookup (write_file p b fs') q = Some Denied \<longleftrightarrow> lookup fs q = Some Denied"
    using same_inputs_Denied [OF assms(1), of q] assms(3)
    by (auto simp add: lookup_write_file)
qed

lemma try_extract_fst:
  assumes "same_inputs fs0 fs" "is_cnf_xz file"
  shows "fst (try_extract L fs (src, file) (dst, cnf_filename file))
       = fst (try_extract L fs0 (src, file) (dst, cnf_filename file))"
proof -
  have ne: "(src, file) \<noteq> (dst, cnf_filename file)"
    by (rule xz_path_neq [OF assms(2)])
  have "lookup fs (src, file) = lookup fs0 (src, file)"
    using same_inputs_xz [OF assms(1), of "(src, file)"] assms(2) by simp
  moreover have "lookup fs (dst, cnf_filename file) = Some Denied
      \<longleftrightarrow> lookup fs0 (dst, cnf_filename file) = Some Denied"
    by (rule same_inputs_Denied [OF assms(1)])
  ultimately show ?thesis
    by (simp add: try_extract_cases [OF ne] split: option.split node.split sum.split)
qed

lemma try_extract_snd:
  assumes "same_inputs fs0 fs" "is_cnf_xz file"
  shows "entries (snd (try_extract L fs (src, file) (dst, cnf_filename file)))
           = entries fs ++\<^sub>f output_of L fs0 src dst file"
    and "folders (snd (try_extract L fs (src, file) (dst, cnf_filename file))) = folders fs"
    and "same_inputs fs0 (snd (try_extract L fs (src, file) (dst, cnf_filename file)))"
proof -
  let ?t = "(dst, cnf_filename file)"
  have ne: "(src, file) \<noteq> ?t"
    by (rule xz_path_neq [OF assms(2)])
  have l: "lookup fs (src, file) = lookup fs0 (src, file)"
    using same_inputs_xz [OF assms(1), of "(src, file)"] assms(2) by simp
  have d: "lookup fs ?t = Some Denied \<longleftrightarrow> lookup fs0 ?t = Some Denied"
    by (rule same_inputs_Denied [OF assms(1)])
  show "entries (snd (try_extract L fs (src, file) ?t)) = entries fs ++\<^sub>f output_of L fs0 src dst file"
    using l d assms(2)
    by (simp add: try_extract_cases [OF ne] output_of_def write_file_def
        split: option.split node.split sum.split)
  show "folders (snd (try_extract L fs (src, file) ?t)) = folders fs"
    by (simp add: try_extract_cases [OF ne] write_file_def
        split: option.split node.split sum.split)
  have w: "same_inputs fs0 (write_file ?t b fs)" if "lookup fs ?t \<noteq> Some Denied" for b
    using same_inputs_write [OF assms(1) _ that] cnf_filename_not_xz [OF assms(2)] by simp
  show "same_inputs fs0 (snd (try_extract L fs (src, file) ?t))"
    using assms(1) w
    by (simp add: try_extract_cases [OF ne] split: option.split node.split sum.split)
qed

lemma extract_file_skip: "\<not> is_cnf_xz file \<Longrightarrow> extract_file L src dst s file = s"
  by (simp add: extract_file_def)

lemma extract_file_effect:
  assumes "same_inputs fs0 (fsys s)" "is_cnf_xz file"
  shows "entries (fsys (extract_file L src dst s file))
           = entries (fsys s) ++\<^sub>f output_of L fs0 src dst file"
    and "folders (fsys (extract_file L src dst s file)) = folders (fsys s)"
    and "same_inputs fs0 (fsys (extract_file L src dst s file))"
    and "printed (extract_file L src dst s file) = printed s @ [report L fs0 src dst file]"
proof -
  let ?r = "try_extract L (fsys s) (src, file) (dst, cnf_filename file)"
  have fs: "fsys (extract_file L src dst s file) = snd ?r"
    using assms(2) by (simp add: extract_file_def Let_def split: prod.split option.split)
  show "entries (fsys (extract_file L src dst s file))
           = entries (fsys s) ++\<^sub>f output_of L fs0 src dst file"
    unfolding fs by (rule try_extract_snd [OF assms])
  show "folders (fsys (extract_file L src dst s file)) = folders (fsys s)"
    unfolding fs by (rule try_extract_snd [OF assms])
  show "same_inputs fs0 (fsys (extract_file L src dst s file))"
    unfolding fs by (rule try_extract_snd [OF assms])
  have "fst ?r = fst (try_extract L fs0 (src, file) (dst, cnf_filename file))"
    by (rule try_extract_fst [OF assms])
  then show "printed (extract_file L src dst s file) = printed s @ [report L fs0 src dst file]"
    using assms(2)
    by (auto simp add: extract_file_def Let_def report_def split: prod.split option.split)
qed

lemma output_of_not_xz: "\<not> is_cnf_xz file \<Longrightarrow> output_of L fs src dst file = fmempty"
  by (simp add: output_of_def)

lemma extract_files_effect:
  assumes "same_inputs fs0 (fsys s)"
  shows "entries (fsys (foldl (extract_file L src dst) s listing))
           = entries (fsys s) ++\<^sub>f outputs L fs0 src dst listing \<and>
         folders (fsys (foldl (extract_file L src dst) s listing)) = folders (fsys s) \<and>
         same_inputs fs0 (fsys (foldl (extract_file L src dst) s listing)) \<and>
         printed (foldl (extract_file L src dst) s listing)
           = printed s @ map (report L fs0 src dst) (filter is_cnf_xz listing)"
  using assms
proof (induction listing arbitrary: s)
  case Nil
  then show ?case by simp
next
  case (Cons x xs)
  show ?case
  proof (cases "is_cnf_xz x")
    case False
    with Cons show ?thesis by (simp add: extract_file_skip output_of_not_xz)
  next
    case True
    note e = extract_file_effect [OF Cons.prems True, of L src dst]
    from Cons.IH [OF e(3)] e(1,2,4) True show ?thesis by simp
  qed
qed

lemma extractor_effect:
  "entries (fsys (extractor L src dst listing fs)) = entries fs ++\<^sub>f outputs L fs src dst listing"
  "folders (fsys (extractor L src dst listing fs)) = insert dst (folders fs)"
  "same_inputs fs (fsys (extractor L src dst listing fs))"
  "printed (extractor L src dst listing fs)
     = map (report L fs src dst) (filter is_cnf_xz listing)
       @ [''All .cnf.xz files extracted successfully!'']"
proof -
  let ?s0 = "\<lparr>fsys = makedirs dst fs, printed = []\<rparr>"
  have "same_inputs fs (fsys ?s0)"
    by (simp add: same_inputs_makedirs same_inputs_refl)
  note e = extract_files_effect [OF this, of L src dst listing]
  show "entries (fsys (extractor L src dst listing fs)) = entries fs ++\<^sub>f outputs L fs src dst listing"
    using e by (simp add: extractor_def Let_def makedirs_def)
  show "folders (fsys (extractor L src dst listing fs)) = insert dst (folders fs)"
    using e by (simp add: extractor_def Let_def makedirs_def)
  show "same_inputs fs (fsys (extractor L src dst listing fs))"
    using e by (simp add: extractor_def Let_def)
  show "printed (extractor L src dst listing fs)
     = map (report L fs src dst) (filter is_cnf_xz listing)
       @ [''All .cnf.xz files extracted successfully!'']"
    using e by (simp add: extractor_def Let_def)
qed

lemma outputs_append:
  "outputs L fs src dst (xs @ ys) = outputs L fs src dst xs ++\<^sub>f outputs L fs src dst ys"
  by (induction xs) simp_all

lemma output_of_Some:
  "fmlookup (output_of L fs src dst file) p = Some v \<Longrightarrow>
   is_cnf_xz file \<and> p = (dst, cnf_filename file) \<and> (\<exists>b. v = File b)"
  by (auto simp add: output_of_def split: if_splits option.splits node.splits)

lemma output_of_valid:
  "is_cnf_xz file \<Longrightarrow> lookup fs (src, file) = Some (File c) \<Longrightarrow>
   lookup fs (dst, cnf_filename file) \<noteq> Some Denied \<Longrightarrow>
   fmlookup (output_of L fs src dst file) (dst, cnf_filename file)
     = Some (File (case decompress L c of Inl e \<Rightarrow> [] | Inr data \<Rightarrow> data))"
  by (simp add: output_of_def)

lemma outputs_Some:
  "fmlookup (outputs L fs src dst listing) p = Some v \<Longrightarrow>
   (\<exists>file \<in> set listing. is_cnf_xz file \<and> p = (dst, cnf_filename file)) \<and> (\<exists>b. v = File b)"
proof (induction listing)
  case Nil
  then show ?case by simp
next
  case (Cons x xs)
  show ?case
  proof (cases "fmlookup (outputs L fs src dst xs) p")
    case None
    with Cons.prems have "fmlookup (output_of L fs src dst x) p = Some v"
      by (simp add: fmlookup_dom_iff)
    from output_of_Some [OF this] show ?thesis by simp
  next
    case (Some u)
    with Cons.prems have "u = v" by (simp add: fmlookup_dom_iff)
    with Some Cons.IH show ?thesis by auto
  qed
qed

lemma outputs_None:
  assumes "\<forall>g \<in> set listing. is_cnf_xz g \<longrightarrow> cnf_filename g \<noteq> t"
  shows "fmlookup (outputs L fs src dst listing) (dst, t) = None"
proof (cases "fmlookup (outputs L fs src dst listing) (dst, t)")
  case None
  then show ?thesis .
next
  case (Some v)
  from outputs_Some [OF this] assms show ?thesis by auto
qed

lemma lookup_fmadd_None: "fmlookup n p = None \<Longrightarrow> fmlookup (m ++\<^sub>f n) p = fmlookup m p"
  by (simp add: fmlookup_dom_iff)

lemma lookup_fmadd_Some: "fmlookup n p = Some v \<Longrightarrow> fmlookup (m ++\<^sub>f n) p = Some v"
  by (simp add: fmlookup_dom_iff)

lemma extractor_output:
  assumes "is_cnf_xz file" "lookup fs (src, file) = Some (File c)"
    "decompress L c = Inr data" "lookup fs (dst, cnf_filename file) \<noteq> Some Denied"
  shows "lookup (fsys (foldl (extract_file L src dst) \<lparr>fsys = makedirs dst fs, printed = []\<rparr>
            (pre @ [file]))) (dst, cnf_filename file) = Some (File data)"
    and "(\<forall>g \<in> set post. is_cnf_xz g \<longrightarrow> cnf_filename g \<noteq> cnf_filename file) \<Longrightarrow>
         lookup (fsys (extractor L src dst (pre @ file # post) fs)) (dst, cnf_filename file)
           = Some (File data)"
    and "report L fs src dst file
           = ''Extracted: '' @ file @ '' '' @ arrow @ '' '' @ cnf_filename file"
proof -
  let ?t = "(dst, cnf_filename file)"
  let ?s0 = "\<lparr>fsys = makedirs dst fs, printed = []\<rparr>"
  have own: "fmlookup (output_of L fs src dst file) ?t = Some (File data)"
    using output_of_valid [OF assms(1,2,4), of L] assms(3) by simp
  have "same_inputs fs (fsys ?s0)"
    by (simp add: same_inputs_makedirs same_inputs_refl)
  from extract_files_effect [OF this, of L src dst "pre @ [file]"]
  have "entries (fsys (foldl (extract_file L src dst) ?s0 (pre @ [file])))
      = entries (fsys ?s0) ++\<^sub>f (outputs L fs src dst pre ++\<^sub>f output_of L fs src dst file)"
    by (simp add: outputs_append)
  then show "lookup (fsys (foldl (extract_file L src dst) ?s0 (pre @ [file]))) ?t = Some (File data)"
    using own by (simp only: lookup_fmadd_Some)
  show "lookup (fsys (extractor L src dst (pre @ file # post) fs)) ?t = Some (File data)"
    if "\<forall>g \<in> set post. is_cnf_xz g \<longrightarrow> cnf_filename g \<noteq> cnf_filename file"
  proof -
    from that have "fmlookup (outputs L fs src dst post) ?t = None" by (rule outputs_None)
    then have "fmlookup (output_of L fs src dst file ++\<^sub>f outputs L fs src dst post) ?t
        = Some (File data)"
      using own by (simp only: lookup_fmadd_None)
    then have "fmlookup (outputs L fs src dst (pre @ file # post)) ?t = Some (File data)"
      by (simp only: outputs_append outputs.simps lookup_fmadd_Some)
    then show ?thesis
      by (simp only: extractor_effect(1) lookup_fmadd_Some)
  qed
  have ne: "(src, file) \<noteq> ?t" by (rule xz_path_neq [OF assms(1)])
  show "report L fs src dst file = ''Extracted: '' @ file @ '' '' @ arrow @ '' '' @ cnf_filename file"
    using assms by (simp add: report_def try_extract_cases [OF ne])
qed







lemma cnf_filename_parts:
  assumes "is_cnf_xz file"
  shows "cnf_filename file @ drop (length file - 3) file = file"
    and "lower (drop (length file - 3) file) = ''.xz''"
    and "length (drop (length file - 3) file) = 3"
proof -
  from assms obtain stem cnf xz where
    f: "file = stem @ cnf @ xz" "lower cnf = ''.cnf''" "lower xz = ''.xz''"
    by (rule matches_cnf_xz)
  from f(3) have len: "length xz = 3" by (auto elim: lower_xz)
  show "cnf_filename file @ drop (length file - 3) file = file" by simp
  from f(1) len have "drop (length file - 3) file = xz" by simp
  with f(3) len show "lower (drop (length file - 3) file) = ''.xz''"
    "length (drop (length file - 3) file) = 3" by simp_all
qed


lemmas xrun_simps = extractor_def extract_file_def try_extract_def endswith_def lower_def
  lower_char_def makedirs_def open_rb_def open_wb_def write_file_def Let_def arrow_def


lemma report_error:
  "fst (try_extract L fs (src, file) (dst, cnf_filename file)) = Some e \<Longrightarrow>
   report L fs src dst file = ''Error extracting '' @ file @ '': '' @ str_exn L e"
  by (simp add: report_def)

subsection \<open>Frame, overwriting and the casing of names\<close>

lemma output_of_other:
  "p \<noteq> (dst, cnf_filename file) \<Longrightarrow> fmlookup (output_of L fs src dst file) p = None"
proof (cases "fmlookup (output_of L fs src dst file) p")
  case None
  then show ?thesis .
next
  case (Some v)
  assume "p \<noteq> (dst, cnf_filename file)"
  with output_of_Some [OF Some] show ?thesis by simp
qed

lemma outputs_other_folder:
  "fst p \<noteq> dst \<Longrightarrow> fmlookup (outputs L fs src dst listing) p = None"
proof (cases "fmlookup (outputs L fs src dst listing) p")
  case None
  then show ?thesis .
next
  case (Some v)
  assume "fst p \<noteq> dst"
  with outputs_Some [OF Some] show ?thesis by auto
qed

lemma extract_file_step:
  assumes "is_cnf_xz file"
  shows "entries (fsys (extract_file L src dst s file))
           = entries (fsys s) ++\<^sub>f output_of L (fsys s) src dst file"
    and "printed (extract_file L src dst s file) = printed s @ [report L (fsys s) src dst file]"
  using extract_file_effect [OF same_inputs_refl assms] by simp_all

text \<open>
  Claim C8. The Extractor has no collision check. When the output path of a file
  that passes the suffix test already holds a regular file and the compressed file
  can be opened, the iteration stores into that very path: its old bytes are replaced
  by the decompressed bytes (by no bytes when decompression raises after the
  truncation), and no new name appears in the file system. In particular two source
  files \<^verbatim>\<open>a.cnf.xz\<close> and \<^verbatim>\<open>a.cnf.XZ\<close> both map to \<^verbatim>\<open>a.cnf\<close>, which ends with the
  bytes of the one listed last.
\<close>

theorem extractor_overwrites_existing_output:
  "(\<forall>L src dst s file old c.
      is_cnf_xz file \<and> lookup (fsys s) (dst, cnf_filename file) = Some (File old) \<and>
      lookup (fsys s) (src, file) = Some (File c) \<longrightarrow>
      lookup (fsys (extract_file L src dst s file)) (dst, cnf_filename file)
        = Some (File (case decompress L c of Inl e \<Rightarrow> [] | Inr data \<Rightarrow> data)) \<and>
      fmdom (entries (fsys (extract_file L src dst s file))) = fmdom (entries (fsys s))) \<and>
   (\<forall>L src dst fs c1 c2 d1 d2.
      lookup fs (src, ''a.cnf.xz'') = Some (File c1) \<and> decompress L c1 = Inr d1 \<and>
      lookup fs (src, ''a.cnf.XZ'') = Some (File c2) \<and> decompress L c2 = Inr d2 \<and>
      lookup fs (dst, ''a.cnf'') \<noteq> Some Denied \<longrightarrow>
      lookup (fsys (extractor L src dst [''a.cnf.xz'', ''a.cnf.XZ''] fs)) (dst, ''a.cnf'')
        = Some (File d2))"
proof (intro conjI allI impI)
  fix L :: lib and src dst name :: string and s :: state and old c :: bytes
  assume h: "is_cnf_xz name \<and> lookup (fsys s) (dst, cnf_filename name) = Some (File old) \<and>
      lookup (fsys s) (src, name) = Some (File c)"
  then have x: "is_cnf_xz name" and o: "lookup (fsys s) (dst, cnf_filename name) = Some (File old)"
    and l: "lookup (fsys s) (src, name) = Some (File c)" by blast+
  from o have w: "lookup (fsys s) (dst, cnf_filename name) \<noteq> Some Denied" by simp
  note out = output_of_valid [OF x l w, of L]
  show "lookup (fsys (extract_file L src dst s name)) (dst, cnf_filename name)
        = Some (File (case decompress L c of Inl e \<Rightarrow> [] | Inr data \<Rightarrow> data))"
    using out by (simp only: extract_file_step(1) [OF x] lookup_fmadd_Some)
  have "fmdom (output_of L (fsys s) src dst name) = {|(dst, cnf_filename name)|}"
    using x l w by (simp add: output_of_def)
  moreover from o have "(dst, cnf_filename name) |\<in>| fmdom (entries (fsys s))"
    by (rule fmdomI)
  ultimately show "fmdom (entries (fsys (extract_file L src dst s name))) = fmdom (entries (fsys s))"
    by (simp only: extract_file_step(1) [OF x] fmdom_add) auto
next
  fix L :: lib and src dst :: string and fs :: filesys and c1 c2 d1 d2 :: bytes
  assume h: "lookup fs (src, ''a.cnf.xz'') = Some (File c1) \<and> decompress L c1 = Inr d1 \<and>
      lookup fs (src, ''a.cnf.XZ'') = Some (File c2) \<and> decompress L c2 = Inr d2 \<and>
      lookup fs (dst, ''a.cnf'') \<noteq> Some Denied"
  have x: "is_cnf_xz ''a.cnf.XZ''" by (simp add: endswith_def lower_def lower_char_def)
  from h have l: "lookup fs (src, ''a.cnf.XZ'') = Some (File c2)"
    and d: "decompress L c2 = Inr d2" by blast+
  from h have w: "lookup fs (dst, cnf_filename ''a.cnf.XZ'') \<noteq> Some Denied" by simp
  have "lookup (fsys (extractor L src dst ([''a.cnf.xz''] @ ''a.cnf.XZ'' # []) fs))
          (dst, cnf_filename ''a.cnf.XZ'') = Some (File d2)"
    by (rule extractor_output(2) [OF x l d w]) simp
  then show "lookup (fsys (extractor L src dst [''a.cnf.xz'', ''a.cnf.XZ''] fs)) (dst, ''a.cnf'')
        = Some (File d2)"
    by simp
qed

theorem extractor_overwrites_existing_output_witness:
  "is_cnf_xz ''a.cnf.xz'' \<and>
   lookup (fsys \<lparr>fsys = \<lparr>folders = {''in'', ''out''},
                          entries = fmupd (''in'', ''a.cnf.xz'') (File ''wen'')
                                   (fmupd (''out'', ''a.cnf'') (File ''old'') fmempty)\<rparr>,
                  printed = []\<rparr>) (''out'', cnf_filename ''a.cnf.xz'') = Some (File ''old'') \<and>
   lookup (fsys \<lparr>fsys = \<lparr>folders = {''in'', ''out''},
                          entries = fmupd (''in'', ''a.cnf.xz'') (File ''wen'')
                                   (fmupd (''out'', ''a.cnf'') (File ''old'') fmempty)\<rparr>,
                  printed = []\<rparr>) (''in'', ''a.cnf.xz'') = Some (File ''wen'') \<and>
   extract_file \<lparr>decompress = (\<lambda>b. Inr (rev b)), str_exn = (\<lambda>e. ''error'')\<rparr> ''in'' ''out''
      \<lparr>fsys = \<lparr>folders = {''in'', ''out''},
               entries = fmupd (''in'', ''a.cnf.xz'') (File ''wen'')
                        (fmupd (''out'', ''a.cnf'') (File ''old'') fmempty)\<rparr>,
       printed = []\<rparr> ''a.cnf.xz''
     = \<lparr>fsys = \<lparr>folders = {''in'', ''out''},
                entries = fmupd (''out'', ''a.cnf'') (File ''new'')
                         (fmupd (''in'', ''a.cnf.xz'') (File ''wen'')
                         (fmupd (''out'', ''a.cnf'') (File ''old'') fmempty))\<rparr>,
        printed = [''Extracted: a.cnf.xz '' @ arrow @ '' a.cnf'']\<rparr> \<and>
   lookup (fsys (extract_file \<lparr>decompress = (\<lambda>b. Inr (rev b)), str_exn = (\<lambda>e. ''error'')\<rparr>
                   ''in'' ''out''
                   \<lparr>fsys = \<lparr>folders = {''in'', ''out''},
                            entries = fmupd (''in'', ''a.cnf.xz'') (File ''wen'')
                                     (fmupd (''out'', ''a.cnf'') (File ''old'') fmempty)\<rparr>,
                    printed = []\<rparr> ''a.cnf.xz'')) (''out'', cnf_filename ''a.cnf.xz'')
     = Some (File ''new'')"
proof -
  let ?L = "\<lparr>decompress = (\<lambda>b. Inr (rev b)), str_exn = (\<lambda>e. ''error'')\<rparr>"
  let ?s = "\<lparr>fsys = \<lparr>folders = {''in'', ''out''},
               entries = fmupd (''in'', ''a.cnf.xz'') (File ''wen'')
                        (fmupd (''out'', ''a.cnf'') (File ''old'') fmempty)\<rparr>,
       printed = []\<rparr>"
  have h: "is_cnf_xz ''a.cnf.xz'' \<and>
      lookup (fsys ?s) (''out'', cnf_filename ''a.cnf.xz'') = Some (File ''old'') \<and>
      lookup (fsys ?s) (''in'', ''a.cnf.xz'') = Some (File ''wen'')"
    by (simp add: endswith_def lower_def lower_char_def)
  have run: "extract_file ?L ''in'' ''out'' ?s ''a.cnf.xz''
     = \<lparr>fsys = \<lparr>folders = {''in'', ''out''},
                entries = fmupd (''out'', ''a.cnf'') (File ''new'')
                         (fmupd (''in'', ''a.cnf.xz'') (File ''wen'')
                         (fmupd (''out'', ''a.cnf'') (File ''old'') fmempty))\<rparr>,
        printed = [''Extracted: a.cnf.xz '' @ arrow @ '' a.cnf'']\<rparr>"
    by (simp add: xrun_simps)
  from extractor_overwrites_existing_output [THEN conjunct1, rule_format, OF h, of ?L, THEN conjunct1]
  have "lookup (fsys (extract_file ?L ''in'' ''out'' ?s ''a.cnf.xz''))
      (''out'', cnf_filename ''a.cnf.xz'') = Some (File ''new'')"
    by simp
  with h run show ?thesis by blast
qed


text \<open>
  Claim C10. The suffix test ignores case, but the output name is the source name
  without its last three characters, with the casing of the source: a name that
  passes the test is its output name followed by three characters that are \<^verbatim>\<open>.xz\<close>
  in some casing, the iteration changes no path other than that output path, and a
  successful iteration stores the decompressed bytes there and names it in the
  printed line. For \<^verbatim>\<open>A.CNF.XZ\<close> the output name is \<^verbatim>\<open>A.CNF\<close>.
\<close>

theorem extractor_keeps_casing:
  "(\<forall>L src dst s file.
      is_cnf_xz file \<longrightarrow>
      cnf_filename file @ drop (length file - 3) file = file \<and>
      length (drop (length file - 3) file) = 3 \<and>
      lower (drop (length file - 3) file) = ''.xz'' \<and>
      (\<forall>p. p \<noteq> (dst, cnf_filename file) \<longrightarrow>
         lookup (fsys (extract_file L src dst s file)) p = lookup (fsys s) p) \<and>
      (\<forall>c data.
         lookup (fsys s) (src, file) = Some (File c) \<and> decompress L c = Inr data \<and>
         lookup (fsys s) (dst, cnf_filename file) \<noteq> Some Denied \<longrightarrow>
         lookup (fsys (extract_file L src dst s file)) (dst, cnf_filename file) = Some (File data) \<and>
         printed (extract_file L src dst s file)
           = printed s @ [''Extracted: '' @ file @ '' '' @ arrow @ '' '' @ cnf_filename file])) \<and>
   is_cnf_xz ''A.CNF.XZ'' \<and> cnf_filename ''A.CNF.XZ'' = ''A.CNF''"
proof (intro conjI allI impI)
  fix L :: lib and src dst name :: string and s :: state
  assume x: "is_cnf_xz name"
  show "cnf_filename name @ drop (length name - 3) name = name" by simp
  show "length (drop (length name - 3) name) = 3" by (rule cnf_filename_parts [OF x])
  show "lower (drop (length name - 3) name) = ''.xz''" by (rule cnf_filename_parts [OF x])
  {
    fix p :: path
    assume "p \<noteq> (dst, cnf_filename name)"
    then have "fmlookup (output_of L (fsys s) src dst name) p = None"
      by (rule output_of_other)
    then show "lookup (fsys (extract_file L src dst s name)) p = lookup (fsys s) p"
      by (simp only: extract_file_step(1) [OF x] lookup_fmadd_None)
  }
  fix c data :: bytes
  assume h: "lookup (fsys s) (src, name) = Some (File c) \<and> decompress L c = Inr data \<and>
         lookup (fsys s) (dst, cnf_filename name) \<noteq> Some Denied"
  then have l: "lookup (fsys s) (src, name) = Some (File c)" and d: "decompress L c = Inr data"
    and w: "lookup (fsys s) (dst, cnf_filename name) \<noteq> Some Denied" by blast+
  from output_of_valid [OF x l w, of L] d
  have "fmlookup (output_of L (fsys s) src dst name) (dst, cnf_filename name) = Some (File data)"
    by simp
  then show "lookup (fsys (extract_file L src dst s name)) (dst, cnf_filename name) = Some (File data)"
    by (simp only: extract_file_step(1) [OF x] lookup_fmadd_Some)
  show "printed (extract_file L src dst s name)
           = printed s @ [''Extracted: '' @ name @ '' '' @ arrow @ '' '' @ cnf_filename name]"
    by (simp only: extract_file_step(2) [OF x] extractor_output(3) [OF x l d w])
next
  show "is_cnf_xz ''A.CNF.XZ''" by (simp add: endswith_def lower_def lower_char_def)
  show "cnf_filename ''A.CNF.XZ'' = ''A.CNF''" by simp
qed

theorem extractor_keeps_casing_witness:
  "is_cnf_xz ''A.CNF.XZ'' \<and>
   lookup (fsys \<lparr>fsys = \<lparr>folders = {''in'', ''out''},
                          entries = fmupd (''in'', ''A.CNF.XZ'') (File ''FNC p'') fmempty\<rparr>,
                  printed = []\<rparr>) (''in'', ''A.CNF.XZ'') = Some (File ''FNC p'') \<and>
   extract_file \<lparr>decompress = (\<lambda>b. Inr (rev b)), str_exn = (\<lambda>e. ''error'')\<rparr> ''in'' ''out''
      \<lparr>fsys = \<lparr>folders = {''in'', ''out''},
               entries = fmupd (''in'', ''A.CNF.XZ'') (File ''FNC p'') fmempty\<rparr>,
       printed = []\<rparr> ''A.CNF.XZ''
     = \<lparr>fsys = \<lparr>folders = {''in'', ''out''},
                entries = fmupd (''out'', ''A.CNF'') (File ''p CNF'')
                         (fmupd (''in'', ''A.CNF.XZ'') (File ''FNC p'') fmempty)\<rparr>,
        printed = [''Extracted: A.CNF.XZ '' @ arrow @ '' A.CNF'']\<rparr> \<and>
   lookup (fsys (extract_file \<lparr>decompress = (\<lambda>b. Inr (rev b)), str_exn = (\<lambda>e. ''error'')\<rparr>
                   ''in'' ''out''
                   \<lparr>fsys = \<lparr>folders = {''in'', ''out''},
                            entries = fmupd (''in'', ''A.CNF.XZ'') (File ''FNC p'') fmempty\<rparr>,
                    printed = []\<rparr> ''A.CNF.XZ'')) (''out'', ''a.cnf'') = None"
proof -
  let ?L = "\<lparr>decompress = (\<lambda>b. Inr (rev b)), str_exn = (\<lambda>e. ''error'')\<rparr>"
  let ?s = "\<lparr>fsys = \<lparr>folders = {''in'', ''out''},
               entries = fmupd (''in'', ''A.CNF.XZ'') (File ''FNC p'') fmempty\<rparr>,
       printed = []\<rparr>"
  have x: "is_cnf_xz ''A.CNF.XZ''" by (simp add: endswith_def lower_def lower_char_def)
  have l: "lookup (fsys ?s) (''in'', ''A.CNF.XZ'') = Some (File ''FNC p'')" by simp
  have run: "extract_file ?L ''in'' ''out'' ?s ''A.CNF.XZ''
     = \<lparr>fsys = \<lparr>folders = {''in'', ''out''},
                entries = fmupd (''out'', ''A.CNF'') (File ''p CNF'')
                         (fmupd (''in'', ''A.CNF.XZ'') (File ''FNC p'') fmempty)\<rparr>,
        printed = [''Extracted: A.CNF.XZ '' @ arrow @ '' A.CNF'']\<rparr>"
    by (simp add: xrun_simps)
  have ne: "(''out'', ''a.cnf'') \<noteq> (''out'', cnf_filename ''A.CNF.XZ'')" by simp
  from extractor_keeps_casing [THEN conjunct1, rule_format, OF x, of "''out''" ?L "''in''" ?s,
      THEN conjunct2, THEN conjunct2, THEN conjunct2, THEN conjunct1, rule_format, OF ne]
  have "lookup (fsys (extract_file ?L ''in'' ''out'' ?s ''A.CNF.XZ'')) (''out'', ''a.cnf'') = None"
    by simp
  with x l run show ?thesis by blast
qed

section \<open>Properties with links and with a \<^verbatim>\<open>print\<close> that may raise\<close>

text \<open>Where the destination folder has no links, a write through a path is a write to
  that path, and the second embedding does to the file system what the first does:
  all of it when the run completes, a prefix of the Extractor's loop when a
  \<^verbatim>\<open>print\<close> stops it.\<close>

lemma write_through_plain: "links E p = [] \<Longrightarrow> write_through E p b fs = write_file p b fs"
  by (simp add: write_through_def)

lemma open_wb_env_plain: "links E p = [] \<Longrightarrow> open_wb_env E fs p = open_wb fs p"
  by (simp add: open_wb_env_def open_wb_def write_through_plain split: option.split node.split)

lemma copy2_env_plain: "links E dst = [] \<Longrightarrow> copy2_env E fs src dst = copy2 fs src dst"
  by (simp add: copy2_env_def copy2_def open_wb_env_plain write_through_plain split: sum.split)

lemma try_extract_env_plain:
  "links E cnf = [] \<Longrightarrow> try_extract_env E L fs xz cnf = try_extract L fs xz cnf"
  by (simp add: try_extract_env_def try_extract_def open_wb_env_plain write_through_plain
      split: sum.split)

lemma no_links_inD: "no_links_in E d \<Longrightarrow> links E (d, n) = []"
  by (simp add: no_links_in_def)

lemma collect_file_env_plain:
  assumes "no_links_in E d"
  shows "collect_file_env E d root file s = collect_file d root file s"
proof -
  have "links E (destination_path_of (fsys s) d file) = []"
    using assms destination_path_of_fst [of "fsys s" d "file"]
    unfolding no_links_in_def by blast
  then show ?thesis
    by (simp add: collect_file_env_def collect_file_def copy2_env_plain)
qed

lemma collect_files_env_plain:
  "no_links_in E d \<Longrightarrow> collect_files_env E d root files s = collect_files d root files s"
  by (induction files arbitrary: s) (simp_all add: collect_file_env_plain split: prod.split option.split)

lemma collect_walk_env_plain:
  "no_links_in E d \<Longrightarrow> collect_walk_env E d w s = collect_walk d w s"
proof (induction w arbitrary: s)
  case Nil
  then show ?case by simp
next
  case (Cons t w)
  obtain root dirs files where "t = (root, dirs, files)" by (cases t)
  with Cons show ?case
    by (simp add: collect_files_env_plain split: prod.split option.split)
qed

lemma collector_env_fsys:
  assumes "no_links_in E d" "collector_env E d w fs = (r, s)"
  shows "fsys s = fsys (snd (collector d w fs))"
  using assms
  by (auto simp add: collector_env_def collector_def collect_walk_env_plain print_line_def
      split: prod.splits option.splits)

lemma collector_env_plain: "collector_env plain_env d w fs = collector d w fs"
proof -
  have "no_links_in plain_env d" by (simp add: no_links_in_def plain_env_def)
  then show ?thesis
    by (simp add: collector_env_def collector_def collect_walk_env_plain print_line_def plain_env_def
        split: prod.split option.split)
qed

lemma extract_file_fsys:
  "fsys (extract_file L src dst s file)
     = (if is_cnf_xz file then snd (try_extract L (fsys s) (src, file) (dst, cnf_filename file))
        else fsys s)"
  by (simp add: extract_file_def Let_def split: prod.split option.split)

lemma extract_file_env_fsys:
  assumes "no_links_in E dst"
  shows "fsys (snd (extract_file_env E L src dst s file)) = fsys (extract_file L src dst s file)"
  using no_links_inD [OF assms]
  by (simp add: extract_file_env_def extract_file_fsys try_extract_env_plain Let_def
      except_handler_def print_line_def split: prod.split option.split)

lemma foldl_extract_file_cong:
  "fsys s = fsys t \<Longrightarrow>
   fsys (foldl (extract_file L src dst) s xs) = fsys (foldl (extract_file L src dst) t xs)"
proof (induction xs arbitrary: s t)
  case Nil
  then show ?case by simp
next
  case (Cons x xs)
  from Cons.prems have "fsys (extract_file L src dst s x) = fsys (extract_file L src dst t x)"
    by (simp add: extract_file_fsys)
  from Cons.IH [OF this] show ?case by simp
qed

lemma extract_files_env_prefix:
  assumes "no_links_in E dst"
  shows "\<exists>k. fsys (snd (extract_files_env E L src dst s listing))
              = fsys (foldl (extract_file L src dst) s (take k listing))"
proof (induction listing arbitrary: s)
  case Nil
  then show ?case by simp
next
  case (Cons x xs)
  obtain r1 s1 where step: "extract_file_env E L src dst s x = (r1, s1)" by fastforce
  from extract_file_env_fsys [OF assms, of L src s x] step
  have fs1: "fsys s1 = fsys (extract_file L src dst s x)" by simp
  show ?case
  proof (cases r1)
    case (Some e)
    with step fs1 have "fsys (snd (extract_files_env E L src dst s (x # xs)))
        = fsys (foldl (extract_file L src dst) s (take 1 (x # xs)))" by simp
    then show ?thesis by blast
  next
    case None
    from Cons.IH [of s1] obtain k where
      "fsys (snd (extract_files_env E L src dst s1 xs))
         = fsys (foldl (extract_file L src dst) s1 (take k xs))" by blast
    also have "\<dots> = fsys (foldl (extract_file L src dst) (extract_file L src dst s x) (take k xs))"
      by (rule foldl_extract_file_cong [OF fs1])
    finally have "fsys (snd (extract_files_env E L src dst s (x # xs)))
        = fsys (foldl (extract_file L src dst) s (take (Suc k) (x # xs)))"
      using step None by simp
    then show ?thesis by blast
  qed
qed

lemma extractor_fsys:
  "fsys (extractor L src dst listing fs)
     = fsys (foldl (extract_file L src dst) \<lparr>fsys = makedirs dst fs, printed = []\<rparr> listing)"
  by (simp add: extractor_def Let_def)

lemma extractor_env_prefix:
  assumes "no_links_in E dst"
  shows "\<exists>k. fsys (snd (extractor_env E L src dst listing fs))
              = fsys (extractor L src dst (take k listing) fs)"
proof -
  let ?s0 = "\<lparr>fsys = makedirs dst fs, printed = []\<rparr>"
  from extract_files_env_prefix [OF assms, of L src ?s0 listing] obtain k where
    k: "fsys (snd (extract_files_env E L src dst ?s0 listing))
          = fsys (foldl (extract_file L src dst) ?s0 (take k listing))" by blast
  have "fsys (snd (extractor_env E L src dst listing fs))
      = fsys (snd (extract_files_env E L src dst ?s0 listing))"
    by (simp add: extractor_env_def print_line_def split: prod.split option.split)
  with k show ?thesis by (auto simp add: extractor_fsys)
qed

subsection \<open>The frame of both tools\<close>

lemma collector_frame:
  assumes "collector d w fs = (r, s)"
  shows "folders (fsys s) = insert d (folders fs)"
    and "exists fs p \<Longrightarrow> lookup (fsys s) p = lookup fs p"
    and "fst p \<noteq> d \<Longrightarrow> lookup (fsys s) p = lookup fs p"
proof -
  from assms obtain s1 where
    l: "collect_list d (visits w) \<lparr>fsys = makedirs d fs, printed = [], copied = []\<rparr> = (r, s1)"
    and eq: "fsys s = fsys s1"
    by (rule collector_cases)
  from collect_list_inv [OF collector_inv_init l]
  have inv: "collector_inv (makedirs d fs) d s1" .
  then have "folders (fsys s1) = folders (makedirs d fs)"
    unfolding collector_inv_def by blast
  then show "folders (fsys s) = insert d (folders fs)"
    by (simp add: eq makedirs_def)
  show "lookup (fsys s) p = lookup fs p" if "exists fs p"
  proof -
    from that have "exists (makedirs d fs) p" by (simp add: exists_makedirs)
    from collector_inv_old [OF inv this] show ?thesis by (simp add: eq lookup_makedirs)
  qed
  show "lookup (fsys s) p = lookup fs p" if "fst p \<noteq> d"
    using collector_inv_frame [OF inv that] by (simp add: eq lookup_makedirs)
qed

lemma extractor_frame:
  shows "folders (fsys (extractor L src dst listing fs)) = insert dst (folders fs)"
    and "fst p \<noteq> dst \<Longrightarrow> lookup (fsys (extractor L src dst listing fs)) p = lookup fs p"
    and "is_cnf_xz (snd p) \<Longrightarrow> lookup (fsys (extractor L src dst listing fs)) p = lookup fs p"
    and "exists fs p \<Longrightarrow> exists (fsys (extractor L src dst listing fs)) p"
proof -
  show "folders (fsys (extractor L src dst listing fs)) = insert dst (folders fs)"
    by (rule extractor_effect)
  show "lookup (fsys (extractor L src dst listing fs)) p = lookup fs p" if "fst p \<noteq> dst"
  proof -
    from that have "fmlookup (outputs L fs src dst listing) p = None"
      by (rule outputs_other_folder)
    then show ?thesis by (simp only: extractor_effect(1) lookup_fmadd_None)
  qed
  show "lookup (fsys (extractor L src dst listing fs)) p = lookup fs p" if "is_cnf_xz (snd p)"
    using extractor_effect(3) [of fs L src dst listing] that by (rule same_inputs_xz)
  show "exists (fsys (extractor L src dst listing fs)) p" if e: "exists fs p"
  proof (cases "fmlookup (outputs L fs src dst listing) p")
    case None
    then have "lookup (fsys (extractor L src dst listing fs)) p = lookup fs p"
      by (simp only: extractor_effect(1) lookup_fmadd_None)
    with e show ?thesis by (simp add: exists_def)
  next
    case (Some v)
    then have "lookup (fsys (extractor L src dst listing fs)) p = Some v"
      by (simp only: extractor_effect(1) lookup_fmadd_Some)
    then show ?thesis by (simp add: exists_def)
  qed
qed

text \<open>
  Claim C7, amended. Provided no path of the destination folder shares its file with
  another path (no symbolic link, dangling or not, and no hard link there): in every
  run of the Collector, whatever its outcome and whatever \<^verbatim>\<open>print\<close> does, the
  destination folder exists afterwards, every entry that existed before has the
  contents it had, and every path outside the destination folder is as it was; in
  every run of the Extractor, completed or not, the destination folder exists
  afterwards, every path outside it is as it was, every entry whose name passes the
  Extractor's suffix test (the files it reads) is as it was, and every entry that
  existed before still exists. The source and destination paths of both scripts are
  different folders, so no source file is modified or deleted.
\<close>

theorem tools_write_only_in_destination:
  "(\<forall>E d w fs r s.
      no_links_in E d \<and> collector_env E d w fs = (r, s) \<longrightarrow>
      folders (fsys s) = insert d (folders fs) \<and>
      (\<forall>p. exists fs p \<longrightarrow> lookup (fsys s) p = lookup fs p) \<and>
      (\<forall>p. fst p \<noteq> d \<longrightarrow> lookup (fsys s) p = lookup fs p)) \<and>
   (\<forall>E L src dst listing fs r s.
      no_links_in E dst \<and> extractor_env E L src dst listing fs = (r, s) \<longrightarrow>
      folders (fsys s) = insert dst (folders fs) \<and>
      (\<forall>p. fst p \<noteq> dst \<longrightarrow> lookup (fsys s) p = lookup fs p) \<and>
      (\<forall>p. is_cnf_xz (snd p) \<longrightarrow> lookup (fsys s) p = lookup fs p) \<and>
      (\<forall>p. exists fs p \<longrightarrow> exists (fsys s) p)) \<and>
   source_root \<noteq> destination \<and> source_folder \<noteq> destination_folder"
proof (intro conjI allI impI)
  fix E :: env and d :: string and w :: walk and fs :: filesys and r :: "exn option"
    and s :: cstate
  assume h: "no_links_in E d \<and> collector_env E d w fs = (r, s)"
  obtain r0 s0 where plain: "collector d w fs = (r0, s0)" by fastforce
  from h have eq: "fsys s = fsys s0"
    using collector_env_fsys [of E d w fs r s] plain by simp
  show "folders (fsys s) = insert d (folders fs)"
    unfolding eq by (rule collector_frame [OF plain])
  {
    fix p :: path
    assume "exists fs p"
    then show "lookup (fsys s) p = lookup fs p"
      unfolding eq by (rule collector_frame [OF plain])
  }
  {
    fix p :: path
    assume "fst p \<noteq> d"
    then show "lookup (fsys s) p = lookup fs p"
      unfolding eq by (rule collector_frame [OF plain])
  }
next
  fix E :: env and L :: lib and src dst :: string and listing :: "string list"
    and fs :: filesys and r :: "exn option" and s :: state
  assume h: "no_links_in E dst \<and> extractor_env E L src dst listing fs = (r, s)"
  then obtain k where eq: "fsys s = fsys (extractor L src dst (take k listing) fs)"
    using extractor_env_prefix [of E dst L src listing fs] by auto
  show "folders (fsys s) = insert dst (folders fs)"
    unfolding eq by (rule extractor_frame)
  {
    fix p :: path
    assume "fst p \<noteq> dst"
    then show "lookup (fsys s) p = lookup fs p"
      unfolding eq by (rule extractor_frame)
  }
  {
    fix p :: path
    assume "is_cnf_xz (snd p)"
    then show "lookup (fsys s) p = lookup fs p"
      unfolding eq by (rule extractor_frame)
  }
  {
    fix p :: path
    assume "exists fs p"
    then show "exists (fsys s) p"
      unfolding eq by (rule extractor_frame)
  }
next
  show "source_root \<noteq> destination"
    by (simp add: source_root_def destination_def)
  show "source_folder \<noteq> destination_folder"
    by (simp add: source_folder_def destination_folder_def)
qed

lemmas erun_simps = extractor_env_def extract_file_env_def try_extract_env_def except_handler_def
  print_line_def open_wb_env_def write_through_def copy2_env_def collector_env_def
  collect_file_env_def link_between_def narrow_console_def toy_lib_def no_links_def
  wide_console_def

text \<open>
  Without the proviso the claim fails. A dangling symbolic link \<^verbatim>\<open>out/a.cnf\<close> is
  absent for \<^verbatim>\<open>os.path.exists\<close>, and the Collector's copy goes through it: a file
  appears outside the destination folder. An output path \<^verbatim>\<open>out/x.cnf\<close> that is a
  hard link of the source \<^verbatim>\<open>in/x.cnf.xz\<close> is truncated by \<^verbatim>\<open>open(cnf_path, "wb")\<close>,
  and the source of the Extractor is left empty.
\<close>

theorem tools_write_through_links:
  "fst (collector_env
      \<lparr>links = link_between (''out'', ''a.cnf'') (''elsewhere'', ''target''),
       print_exn = narrow_console\<rparr>
      ''out'' [(''in'', [], [''a.cnf''])]
      \<lparr>folders = {''in''}, entries = fmupd (''in'', ''a.cnf'') (File ''data'') fmempty\<rparr>) = None \<and>
   lookup \<lparr>folders = {''in''}, entries = fmupd (''in'', ''a.cnf'') (File ''data'') fmempty\<rparr>
      (''elsewhere'', ''target'') = None \<and>
   lookup (fsys (snd (collector_env
      \<lparr>links = link_between (''out'', ''a.cnf'') (''elsewhere'', ''target''),
       print_exn = narrow_console\<rparr>
      ''out'' [(''in'', [], [''a.cnf''])]
      \<lparr>folders = {''in''}, entries = fmupd (''in'', ''a.cnf'') (File ''data'') fmempty\<rparr>)))
      (''elsewhere'', ''target'') = Some (File ''data'') \<and>
   fst (''elsewhere'', ''target'') \<noteq> ''out'' \<and>
   lookup \<lparr>folders = {''in'', ''out''},
           entries = fmupd (''in'', ''x.cnf.xz'') (File ''XZhello'')
                    (fmupd (''out'', ''x.cnf'') (File ''XZhello'') fmempty)\<rparr>
      (''in'', ''x.cnf.xz'') = Some (File ''XZhello'') \<and>
   lookup (fsys (snd (extractor_env
      \<lparr>links = link_between (''out'', ''x.cnf'') (''in'', ''x.cnf.xz''),
       print_exn = narrow_console\<rparr>
      toy_lib ''in'' ''out'' [''x.cnf.xz'']
      \<lparr>folders = {''in'', ''out''},
       entries = fmupd (''in'', ''x.cnf.xz'') (File ''XZhello'')
                (fmupd (''out'', ''x.cnf'') (File ''XZhello'') fmempty)\<rparr>)))
      (''in'', ''x.cnf.xz'') = Some (File []) \<and>
   fst (''in'', ''x.cnf.xz'') \<noteq> ''out''"
  by (simp add: erun_simps run_simps xrun_simps)

theorem tools_write_only_in_destination_witness:
  "no_links_in \<lparr>links = link_between (''in'', ''a.cnf'') (''in'', ''b.cnf''),
                print_exn = narrow_console\<rparr> ''out'' \<and>
   collector_env \<lparr>links = link_between (''in'', ''a.cnf'') (''in'', ''b.cnf''),
                  print_exn = narrow_console\<rparr>
      ''out'' [(''in'', [], [''a.cnf''])]
      \<lparr>folders = {''in''}, entries = fmupd (''in'', ''a.cnf'') (File ''p cnf 0 0'') fmempty\<rparr>
     = (None,
        \<lparr>fsys = \<lparr>folders = {''out'', ''in''},
                 entries = fmupd (''out'', ''a.cnf'') (File ''p cnf 0 0'')
                          (fmupd (''in'', ''a.cnf'') (File ''p cnf 0 0'') fmempty)\<rparr>,
         printed = [''All CNF files collected successfully!''],
         copied = [((''in'', ''a.cnf''), (''out'', ''a.cnf''))]\<rparr>) \<and>
   exists \<lparr>folders = {''in''}, entries = fmupd (''in'', ''a.cnf'') (File ''p cnf 0 0'') fmempty\<rparr>
      (''in'', ''a.cnf'') \<and>
   lookup \<lparr>folders = {''out'', ''in''},
           entries = fmupd (''out'', ''a.cnf'') (File ''p cnf 0 0'')
                    (fmupd (''in'', ''a.cnf'') (File ''p cnf 0 0'') fmempty)\<rparr> (''in'', ''a.cnf'')
     = lookup \<lparr>folders = {''in''}, entries = fmupd (''in'', ''a.cnf'') (File ''p cnf 0 0'') fmempty\<rparr>
         (''in'', ''a.cnf'') \<and>
   extractor_env \<lparr>links = link_between (''in'', ''a.cnf'') (''in'', ''b.cnf''),
                  print_exn = narrow_console\<rparr>
      toy_lib ''in'' ''out'' [''x.cnf.xz'']
      \<lparr>folders = {''in''}, entries = fmupd (''in'', ''x.cnf.xz'') (File ''XZhello'') fmempty\<rparr>
     = (None,
        \<lparr>fsys = \<lparr>folders = {''out'', ''in''},
                 entries = fmupd (''out'', ''x.cnf'') (File ''hello'')
                          (fmupd (''in'', ''x.cnf.xz'') (File ''XZhello'') fmempty)\<rparr>,
         printed = [''Error extracting x.cnf.xz: character cannot be encoded'',
                    ''All .cnf.xz files extracted successfully!'']\<rparr>) \<and>
   fst (''in'', ''x.cnf.xz'') \<noteq> ''out'' \<and>
   lookup \<lparr>folders = {''out'', ''in''},
           entries = fmupd (''out'', ''x.cnf'') (File ''hello'')
                    (fmupd (''in'', ''x.cnf.xz'') (File ''XZhello'') fmempty)\<rparr> (''in'', ''x.cnf.xz'')
     = lookup \<lparr>folders = {''in''}, entries = fmupd (''in'', ''x.cnf.xz'') (File ''XZhello'') fmempty\<rparr>
         (''in'', ''x.cnf.xz'')"
proof -
  let ?E = "\<lparr>links = link_between (''in'', ''a.cnf'') (''in'', ''b.cnf''),
            print_exn = narrow_console\<rparr>"
  let ?fs = "\<lparr>folders = {''in''}, entries = fmupd (''in'', ''a.cnf'') (File ''p cnf 0 0'') fmempty\<rparr>"
  let ?fx = "\<lparr>folders = {''in''}, entries = fmupd (''in'', ''x.cnf.xz'') (File ''XZhello'') fmempty\<rparr>"
  have n: "no_links_in ?E ''out''"
    by (simp add: no_links_in_def link_between_def)
  have run: "collector_env ?E ''out'' [(''in'', [], [''a.cnf''])] ?fs
     = (None,
        \<lparr>fsys = \<lparr>folders = {''out'', ''in''},
                 entries = fmupd (''out'', ''a.cnf'') (File ''p cnf 0 0'')
                          (fmupd (''in'', ''a.cnf'') (File ''p cnf 0 0'') fmempty)\<rparr>,
         printed = [''All CNF files collected successfully!''],
         copied = [((''in'', ''a.cnf''), (''out'', ''a.cnf''))]\<rparr>)"
    by (simp add: erun_simps run_simps)
  have xrun: "extractor_env ?E toy_lib ''in'' ''out'' [''x.cnf.xz''] ?fx
     = (None,
        \<lparr>fsys = \<lparr>folders = {''out'', ''in''},
                 entries = fmupd (''out'', ''x.cnf'') (File ''hello'')
                          (fmupd (''in'', ''x.cnf.xz'') (File ''XZhello'') fmempty)\<rparr>,
         printed = [''Error extracting x.cnf.xz: character cannot be encoded'',
                    ''All .cnf.xz files extracted successfully!'']\<rparr>)"
    by (simp add: erun_simps xrun_simps)
  have e: "exists ?fs (''in'', ''a.cnf'')" by (simp add: exists_def)
  have ne: "fst (''in'', ''x.cnf.xz'') \<noteq> ''out''" by simp
  note c = tools_write_only_in_destination [THEN conjunct1, rule_format, OF conjI [OF n run]]
  note x = tools_write_only_in_destination [THEN conjunct2, THEN conjunct1, rule_format,
      OF conjI [OF n xrun]]
  from c [THEN conjunct2, THEN conjunct1, rule_format, OF e]
  have a1: "lookup \<lparr>folders = {''out'', ''in''},
           entries = fmupd (''out'', ''a.cnf'') (File ''p cnf 0 0'')
                    (fmupd (''in'', ''a.cnf'') (File ''p cnf 0 0'') fmempty)\<rparr> (''in'', ''a.cnf'')
     = lookup ?fs (''in'', ''a.cnf'')"
    by simp
  from x [THEN conjunct2, THEN conjunct1, rule_format, OF ne]
  have a2: "lookup \<lparr>folders = {''out'', ''in''},
           entries = fmupd (''out'', ''x.cnf'') (File ''hello'')
                    (fmupd (''in'', ''x.cnf.xz'') (File ''XZhello'') fmempty)\<rparr> (''in'', ''x.cnf.xz'')
     = lookup ?fx (''in'', ''x.cnf.xz'')"
    by simp
  from n run e a1 xrun ne a2 show ?thesis by blast
qed

subsection \<open>The failure policy of the Extractor\<close>

lemma extract_file_env_completes:
  assumes "\<forall>e. print_exn E (''Error extracting '' @ file @ '': '' @ str_exn L e) = None"
  shows "\<exists>s'. extract_file_env E L src dst s file = (None, s') \<and>
              length (printed s') = length (printed s) + (if is_cnf_xz file then 1 else 0)"
  using assms
  by (auto simp add: extract_file_env_def Let_def except_handler_def print_line_def
      split: prod.split option.split)

lemma extract_files_env_completes:
  assumes "\<forall>name \<in> set listing. \<forall>e.
      print_exn E (''Error extracting '' @ name @ '': '' @ str_exn L e) = None"
  shows "\<exists>s'. extract_files_env E L src dst s listing = (None, s') \<and>
              length (printed s') = length (printed s) + length (filter is_cnf_xz listing)"
  using assms
proof (induction listing arbitrary: s)
  case Nil
  then show ?case by simp
next
  case (Cons x xs)
  from Cons.prems have hx: "\<forall>e. print_exn E (''Error extracting '' @ x @ '': '' @ str_exn L e) = None"
    and hxs: "\<forall>name \<in> set xs. \<forall>e.
      print_exn E (''Error extracting '' @ name @ '': '' @ str_exn L e) = None"
    by simp_all
  from extract_file_env_completes [OF hx, of src dst s] obtain s1 where
    s1: "extract_file_env E L src dst s x = (None, s1)"
      "length (printed s1) = length (printed s) + (if is_cnf_xz x then 1 else 0)" by blast
  from Cons.IH [OF hxs, of s1] obtain s' where
    "extract_files_env E L src dst s1 xs = (None, s')"
    "length (printed s') = length (printed s1) + length (filter is_cnf_xz xs)" by blast
  with s1 show ?case by simp
qed

lemma extract_file_env_report:
  assumes handler: "\<forall>e. print_exn E (''Error extracting '' @ file @ '': '' @ str_exn L e) = None"
    and nl: "no_links_in E dst" and same: "same_inputs fs0 (fsys s)" and x: "is_cnf_xz file"
  shows "\<exists>s'. extract_file_env E L src dst s file = (None, s') \<and>
              fsys s' = fsys (extract_file L src dst s file) \<and>
              printed s' = printed s @ [report_env E L fs0 src dst file]"
proof -
  let ?t = "try_extract L (fsys s) (src, file) (dst, cnf_filename file)"
  have pl: "try_extract_env E L (fsys s) (src, file) (dst, cnf_filename file) = ?t"
    by (rule try_extract_env_plain [OF no_links_inD [OF nl]])
  have f: "fst ?t = fst (try_extract L fs0 (src, file) (dst, cnf_filename file))"
    by (rule try_extract_fst [OF same x])
  obtain r fs' where t: "?t = (r, fs')" by fastforce
  with f have r: "fst (try_extract L fs0 (src, file) (dst, cnf_filename file)) = r" by simp
  have fs: "fsys (extract_file L src dst s file) = fs'"
    using x t by (simp add: extract_file_fsys)
  show ?thesis
    using x handler
    by (auto simp add: extract_file_env_def Let_def pl t fs r report_env_def except_handler_def
        print_line_def split: option.split)
qed

lemma extract_files_env_report:
  assumes nl: "no_links_in E dst"
  shows "\<forall>name \<in> set listing. \<forall>e.
           print_exn E (''Error extracting '' @ name @ '': '' @ str_exn L e) = None \<Longrightarrow>
         same_inputs fs0 (fsys s) \<Longrightarrow>
         \<exists>s'. extract_files_env E L src dst s listing = (None, s') \<and>
              fsys s' = fsys (foldl (extract_file L src dst) s listing) \<and>
              printed s' = printed s @ map (report_env E L fs0 src dst) (filter is_cnf_xz listing)"
proof (induction listing arbitrary: s)
  case Nil
  then show ?case by simp
next
  case (Cons x xs)
  from Cons.prems(1) have hx: "\<forall>e. print_exn E (''Error extracting '' @ x @ '': '' @ str_exn L e) = None"
    and hxs: "\<forall>name \<in> set xs. \<forall>e.
      print_exn E (''Error extracting '' @ name @ '': '' @ str_exn L e) = None"
    by simp_all
  show ?case
  proof (cases "is_cnf_xz x")
    case False
    then have step: "extract_file_env E L src dst s x = (None, s)"
      by (simp add: extract_file_env_def)
    from False have "extract_file L src dst s x = s" by (rule extract_file_skip)
    with Cons.IH [OF hxs Cons.prems(2)] step False show ?thesis by simp
  next
    case True
    from extract_file_env_report [OF hx nl Cons.prems(2) True, of src] obtain s1 where
      s1: "extract_file_env E L src dst s x = (None, s1)"
        "fsys s1 = fsys (extract_file L src dst s x)"
        "printed s1 = printed s @ [report_env E L fs0 src dst x]" by blast
    from extract_file_effect(3) [OF Cons.prems(2) True, of L src dst] s1(2)
    have "same_inputs fs0 (fsys s1)" by simp
    from Cons.IH [OF hxs this] obtain s' where
      s': "extract_files_env E L src dst s1 xs = (None, s')"
        "fsys s' = fsys (foldl (extract_file L src dst) s1 xs)"
        "printed s' = printed s1 @ map (report_env E L fs0 src dst) (filter is_cnf_xz xs)"
      by blast
    from foldl_extract_file_cong [OF s1(2), of L src dst xs] s'(2)
    have "fsys s' = fsys (foldl (extract_file L src dst) s (x # xs))" by simp
    with s1 s' True show ?thesis by simp
  qed
qed

lemma extractor_env_report:
  assumes handler: "\<forall>name \<in> set listing. \<forall>e.
      print_exn E (''Error extracting '' @ name @ '': '' @ str_exn L e) = None"
    and final: "print_exn E ''All .cnf.xz files extracted successfully!'' = None"
    and nl: "no_links_in E dst"
  shows "\<exists>s. extractor_env E L src dst listing fs = (None, s) \<and>
             fsys s = fsys (extractor L src dst listing fs) \<and>
             printed s = map (report_env E L fs src dst) (filter is_cnf_xz listing)
                         @ [''All .cnf.xz files extracted successfully!'']"
proof -
  let ?s0 = "\<lparr>fsys = makedirs dst fs, printed = []\<rparr>"
  have "same_inputs fs (fsys ?s0)"
    by (simp add: same_inputs_makedirs same_inputs_refl)
  from extract_files_env_report [OF nl handler this, of src] obtain s' where
    "extract_files_env E L src dst ?s0 listing = (None, s')"
    "fsys s' = fsys (foldl (extract_file L src dst) ?s0 listing)"
    "printed s' = map (report_env E L fs src dst) (filter is_cnf_xz listing)"
    by auto
  with final show ?thesis
    by (simp add: extractor_env_def print_line_def extractor_fsys)
qed

lemma extractor_env_plain:
  "extractor_env plain_env L src dst listing fs = (None, extractor L src dst listing fs)"
proof -
  have h: "\<forall>name \<in> set listing. \<forall>e.
      print_exn plain_env (''Error extracting '' @ name @ '': '' @ str_exn L e) = None"
    "print_exn plain_env ''All .cnf.xz files extracted successfully!'' = None"
    "no_links_in plain_env dst"
    by (simp_all add: plain_env_def no_links_in_def)
  from extractor_env_report [OF h] obtain s where
    s: "extractor_env plain_env L src dst listing fs = (None, s)"
      "fsys s = fsys (extractor L src dst listing fs)"
      "printed s = map (report_env plain_env L fs src dst) (filter is_cnf_xz listing)
                         @ [''All .cnf.xz files extracted successfully!'']"
    by blast
  have "report_env plain_env L fs src dst name = report L fs src dst name" for name
    by (simp add: report_env_def report_def plain_env_def split: option.split)
  with s(3) have "printed s = printed (extractor L src dst listing fs)"
    by (simp add: extractor_effect(4))
  with s(1,2) show ?thesis by simp
qed

text \<open>
  Claim C4, amended. Provided the \<^verbatim>\<open>print\<close> of the handler does not raise on the files
  of the listing and the \<^verbatim>\<open>print\<close> of line 26 does not raise: every run of the
  Extractor reaches line 26 and its last printed line is the completion message,
  after exactly one line for each file of the listing that passes the suffix test,
  whatever failed. Provided also that no path of the destination folder shares its
  file with another path: the file system at the end is that of the run without
  print failures; a file whose lines 19 to 21 raise \<open>e\<close> (opening, decompressing,
  opening the output) is reported by \<^verbatim>\<open>Error extracting\<close>, its name and the text of
  \<open>e\<close>; a file whose extraction succeeded but whose \<^verbatim>\<open>Extracted\<close> line cannot be
  printed is reported in the same way, with the exception of that \<^verbatim>\<open>print\<close>; and
  every valid file, whatever failed before or after it, has its output with the
  decompressed bytes at the end of the run when no later file has the same output
  name.
\<close>

theorem extractor_continues_after_failures:
  assumes handler: "\<forall>file \<in> set listing. \<forall>e.
      print_exn E (''Error extracting '' @ file @ '': '' @ str_exn L e) = None"
    and final: "print_exn E ''All .cnf.xz files extracted successfully!'' = None"
  shows "\<exists>s. extractor_env E L src dst listing fs = (None, s) \<and>
           last (printed s) = ''All .cnf.xz files extracted successfully!'' \<and>
           length (printed s) = Suc (length (filter is_cnf_xz listing)) \<and>
           (no_links_in E dst \<longrightarrow>
              fsys s = fsys (extractor L src dst listing fs) \<and>
              (\<forall>file e.
                 file \<in> set listing \<and> is_cnf_xz file \<and>
                 fst (try_extract L fs (src, file) (dst, cnf_filename file)) = Some e \<longrightarrow>
                 ''Error extracting '' @ file @ '': '' @ str_exn L e \<in> set (printed s)) \<and>
              (\<forall>file e.
                 file \<in> set listing \<and> is_cnf_xz file \<and>
                 fst (try_extract L fs (src, file) (dst, cnf_filename file)) = None \<and>
                 print_exn E (''Extracted: '' @ file @ '' '' @ arrow @ '' '' @ cnf_filename file)
                   = Some e \<longrightarrow>
                 ''Error extracting '' @ file @ '': '' @ str_exn L e \<in> set (printed s)) \<and>
              (\<forall>file.
                 file \<in> set listing \<and> is_cnf_xz file \<and>
                 fst (try_extract L fs (src, file) (dst, cnf_filename file)) = None \<and>
                 print_exn E (''Extracted: '' @ file @ '' '' @ arrow @ '' '' @ cnf_filename file)
                   = None \<longrightarrow>
                 ''Extracted: '' @ file @ '' '' @ arrow @ '' '' @ cnf_filename file \<in> set (printed s)) \<and>
              (\<forall>pre file post c data.
                 listing = pre @ file # post \<and> is_cnf_xz file \<and>
                 lookup fs (src, file) = Some (File c) \<and> decompress L c = Inr data \<and>
                 lookup fs (dst, cnf_filename file) \<noteq> Some Denied \<and>
                 (\<forall>g \<in> set post. is_cnf_xz g \<longrightarrow> cnf_filename g \<noteq> cnf_filename file) \<longrightarrow>
                 lookup (fsys s) (dst, cnf_filename file) = Some (File data)))"
proof -
  let ?s0 = "\<lparr>fsys = makedirs dst fs, printed = []\<rparr>"
  let ?done = "''All .cnf.xz files extracted successfully!''"
  from extract_files_env_completes [OF handler, of src dst ?s0] obtain s1 where
    s1: "extract_files_env E L src dst ?s0 listing = (None, s1)"
      "length (printed s1) = length (filter is_cnf_xz listing)" by auto
  let ?s = "s1\<lparr>printed := printed s1 @ [?done]\<rparr>"
  have run: "extractor_env E L src dst listing fs = (None, ?s)"
    using s1(1) final by (simp add: extractor_env_def print_line_def)
  have a: "last (printed ?s) = ?done" by simp
  have b: "length (printed ?s) = Suc (length (filter is_cnf_xz listing))"
    using s1(2) by simp
  have c: "fsys ?s = fsys (extractor L src dst listing fs) \<and>
      (\<forall>name e.
         name \<in> set listing \<and> is_cnf_xz name \<and>
         fst (try_extract L fs (src, name) (dst, cnf_filename name)) = Some e \<longrightarrow>
         ''Error extracting '' @ name @ '': '' @ str_exn L e \<in> set (printed ?s)) \<and>
      (\<forall>name e.
         name \<in> set listing \<and> is_cnf_xz name \<and>
         fst (try_extract L fs (src, name) (dst, cnf_filename name)) = None \<and>
         print_exn E (''Extracted: '' @ name @ '' '' @ arrow @ '' '' @ cnf_filename name)
           = Some e \<longrightarrow>
         ''Error extracting '' @ name @ '': '' @ str_exn L e \<in> set (printed ?s)) \<and>
      (\<forall>name.
         name \<in> set listing \<and> is_cnf_xz name \<and>
         fst (try_extract L fs (src, name) (dst, cnf_filename name)) = None \<and>
         print_exn E (''Extracted: '' @ name @ '' '' @ arrow @ '' '' @ cnf_filename name)
           = None \<longrightarrow>
         ''Extracted: '' @ name @ '' '' @ arrow @ '' '' @ cnf_filename name \<in> set (printed ?s)) \<and>
      (\<forall>pre name post c data.
         listing = pre @ name # post \<and> is_cnf_xz name \<and>
         lookup fs (src, name) = Some (File c) \<and> decompress L c = Inr data \<and>
         lookup fs (dst, cnf_filename name) \<noteq> Some Denied \<and>
         (\<forall>g \<in> set post. is_cnf_xz g \<longrightarrow> cnf_filename g \<noteq> cnf_filename name) \<longrightarrow>
         lookup (fsys ?s) (dst, cnf_filename name) = Some (File data))"
    if nl: "no_links_in E dst"
  proof -
    from extractor_env_report [OF handler final nl, of src fs] run
    have fs: "fsys ?s = fsys (extractor L src dst listing fs)"
      and pr: "printed ?s = map (report_env E L fs src dst) (filter is_cnf_xz listing) @ [?done]"
      by auto
    have mem: "report_env E L fs src dst name \<in> set (printed ?s)"
      if "name \<in> set listing" "is_cnf_xz name" for name
      using that unfolding pr by simp
    show ?thesis
    proof (intro conjI allI impI)
      show "fsys ?s = fsys (extractor L src dst listing fs)" by (rule fs)
    next
      fix name e
      assume "name \<in> set listing \<and> is_cnf_xz name \<and>
         fst (try_extract L fs (src, name) (dst, cnf_filename name)) = Some e"
      then show "''Error extracting '' @ name @ '': '' @ str_exn L e \<in> set (printed ?s)"
        using mem [of name] by (simp add: report_env_def)
    next
      fix name e
      assume "name \<in> set listing \<and> is_cnf_xz name \<and>
         fst (try_extract L fs (src, name) (dst, cnf_filename name)) = None \<and>
         print_exn E (''Extracted: '' @ name @ '' '' @ arrow @ '' '' @ cnf_filename name) = Some e"
      then show "''Error extracting '' @ name @ '': '' @ str_exn L e \<in> set (printed ?s)"
        using mem [of name] by (simp add: report_env_def)
    next
      fix name
      assume "name \<in> set listing \<and> is_cnf_xz name \<and>
         fst (try_extract L fs (src, name) (dst, cnf_filename name)) = None \<and>
         print_exn E (''Extracted: '' @ name @ '' '' @ arrow @ '' '' @ cnf_filename name) = None"
      then show "''Extracted: '' @ name @ '' '' @ arrow @ '' '' @ cnf_filename name \<in> set (printed ?s)"
        using mem [of name] by (simp add: report_env_def)
    next
      fix pre post :: "string list" and name :: string and c data :: bytes
      assume h: "listing = pre @ name # post \<and> is_cnf_xz name \<and>
         lookup fs (src, name) = Some (File c) \<and> decompress L c = Inr data \<and>
         lookup fs (dst, cnf_filename name) \<noteq> Some Denied \<and>
         (\<forall>g \<in> set post. is_cnf_xz g \<longrightarrow> cnf_filename g \<noteq> cnf_filename name)"
      then have x: "is_cnf_xz name" and l: "lookup fs (src, name) = Some (File c)"
        and d: "decompress L c = Inr data"
        and w: "lookup fs (dst, cnf_filename name) \<noteq> Some Denied"
        and eq: "listing = pre @ name # post"
        and later: "\<forall>g \<in> set post. is_cnf_xz g \<longrightarrow> cnf_filename g \<noteq> cnf_filename name"
        by blast+
      from extractor_output(2) [OF x l d w later, of pre]
      show "lookup (fsys ?s) (dst, cnf_filename name) = Some (File data)"
        unfolding fs eq .
    qed
  qed
  from run a b c show ?thesis by blast
qed

text \<open>
  Without the provisos the claim fails. On a console that cannot encode a character
  of a file name, the handler's \<^verbatim>\<open>print\<close> for a corrupt file of that name raises: the
  run ends there, prints no completion message and never extracts the valid file
  listed next. And when the output path of one file is a hard link of the source of
  another, extracting the first overwrites the second, which was valid and now fails
  to decompress.
\<close>

theorem extractor_stopped_by_print_or_link:
  "lookup \<lparr>folders = {''in''},
           entries = fmupd (''in'', CHR 0xCE # CHR 0xBB # ''.cnf.xz'') (File ''garbage'')
                    (fmupd (''in'', ''good.cnf.xz'') (File ''XZp cnf 0 0'') fmempty)\<rparr>
      (''in'', ''good.cnf.xz'') = Some (File ''XZp cnf 0 0'') \<and>
   decompress toy_lib ''XZp cnf 0 0'' = Inr ''p cnf 0 0'' \<and>
   fst (extractor_env \<lparr>links = no_links, print_exn = narrow_console\<rparr> toy_lib ''in'' ''out''
          [CHR 0xCE # CHR 0xBB # ''.cnf.xz'', ''good.cnf.xz'']
          \<lparr>folders = {''in''},
           entries = fmupd (''in'', CHR 0xCE # CHR 0xBB # ''.cnf.xz'') (File ''garbage'')
                    (fmupd (''in'', ''good.cnf.xz'') (File ''XZp cnf 0 0'') fmempty)\<rparr>)
     = Some (UnicodeEncodeError ''charmap'') \<and>
   printed (snd (extractor_env \<lparr>links = no_links, print_exn = narrow_console\<rparr> toy_lib ''in'' ''out''
          [CHR 0xCE # CHR 0xBB # ''.cnf.xz'', ''good.cnf.xz'']
          \<lparr>folders = {''in''},
           entries = fmupd (''in'', CHR 0xCE # CHR 0xBB # ''.cnf.xz'') (File ''garbage'')
                    (fmupd (''in'', ''good.cnf.xz'') (File ''XZp cnf 0 0'') fmempty)\<rparr>)) = [] \<and>
   lookup (fsys (snd (extractor_env \<lparr>links = no_links, print_exn = narrow_console\<rparr> toy_lib
          ''in'' ''out'' [CHR 0xCE # CHR 0xBB # ''.cnf.xz'', ''good.cnf.xz'']
          \<lparr>folders = {''in''},
           entries = fmupd (''in'', CHR 0xCE # CHR 0xBB # ''.cnf.xz'') (File ''garbage'')
                    (fmupd (''in'', ''good.cnf.xz'') (File ''XZp cnf 0 0'') fmempty)\<rparr>)))
      (''out'', ''good.cnf'') = None \<and>
   lookup \<lparr>folders = {''in'', ''out''},
           entries = fmupd (''in'', ''a.cnf.xz'') (File ''XZhello'')
                    (fmupd (''in'', ''b.cnf.xz'') (File ''XZworld'')
                    (fmupd (''out'', ''a.cnf'') (File ''XZworld'') fmempty))\<rparr>
      (''in'', ''b.cnf.xz'') = Some (File ''XZworld'') \<and>
   decompress toy_lib ''XZworld'' = Inr ''world'' \<and>
   fst (extractor_env
          \<lparr>links = link_between (''out'', ''a.cnf'') (''in'', ''b.cnf.xz''), print_exn = wide_console\<rparr>
          toy_lib ''in'' ''out'' [''a.cnf.xz'', ''b.cnf.xz'']
          \<lparr>folders = {''in'', ''out''},
           entries = fmupd (''in'', ''a.cnf.xz'') (File ''XZhello'')
                    (fmupd (''in'', ''b.cnf.xz'') (File ''XZworld'')
                    (fmupd (''out'', ''a.cnf'') (File ''XZworld'') fmempty))\<rparr>) = None \<and>
   lookup (fsys (snd (extractor_env
          \<lparr>links = link_between (''out'', ''a.cnf'') (''in'', ''b.cnf.xz''), print_exn = wide_console\<rparr>
          toy_lib ''in'' ''out'' [''a.cnf.xz'', ''b.cnf.xz'']
          \<lparr>folders = {''in'', ''out''},
           entries = fmupd (''in'', ''a.cnf.xz'') (File ''XZhello'')
                    (fmupd (''in'', ''b.cnf.xz'') (File ''XZworld'')
                    (fmupd (''out'', ''a.cnf'') (File ''XZworld'') fmempty))\<rparr>)))
      (''out'', ''b.cnf'') = Some (File [])"
  by (simp add: erun_simps xrun_simps)

theorem extractor_continues_after_failures_witness:
  "print_exn \<lparr>links = no_links, print_exn = narrow_console\<rparr>
      ''All .cnf.xz files extracted successfully!'' = None \<and>
   no_links_in \<lparr>links = no_links, print_exn = narrow_console\<rparr> ''out'' \<and>
   extractor_env \<lparr>links = no_links, print_exn = narrow_console\<rparr> toy_lib ''in'' ''out''
      [''a.cnf.xz'', ''b.cnf.xz'', ''notes.txt'', ''d.cnf.xz'']
      \<lparr>folders = {''in''},
       entries = fmupd (''in'', ''a.cnf.xz'') (File ''garbage'')
                (fmupd (''in'', ''b.cnf.xz'') Denied
                (fmupd (''in'', ''d.cnf.xz'') (File ''XZp cnf 0 0'') fmempty))\<rparr>
     = (None,
        \<lparr>fsys = \<lparr>folders = {''out'', ''in''},
                 entries = fmupd (''out'', ''d.cnf'') (File ''p cnf 0 0'')
                          (fmupd (''out'', ''a.cnf'') (File [])
                          (fmupd (''in'', ''a.cnf.xz'') (File ''garbage'')
                          (fmupd (''in'', ''b.cnf.xz'') Denied
                          (fmupd (''in'', ''d.cnf.xz'') (File ''XZp cnf 0 0'') fmempty))))\<rparr>,
         printed = [''Error extracting a.cnf.xz: Input format not supported by decoder'',
                    ''Error extracting b.cnf.xz: Permission denied'',
                    ''Error extracting d.cnf.xz: character cannot be encoded'',
                    ''All .cnf.xz files extracted successfully!'']\<rparr>) \<and>
   (\<exists>s. extractor_env \<lparr>links = no_links, print_exn = narrow_console\<rparr> toy_lib ''in'' ''out''
          [''a.cnf.xz'', ''b.cnf.xz'', ''notes.txt'', ''d.cnf.xz'']
          \<lparr>folders = {''in''},
           entries = fmupd (''in'', ''a.cnf.xz'') (File ''garbage'')
                    (fmupd (''in'', ''b.cnf.xz'') Denied
                    (fmupd (''in'', ''d.cnf.xz'') (File ''XZp cnf 0 0'') fmempty))\<rparr> = (None, s) \<and>
        last (printed s) = ''All .cnf.xz files extracted successfully!'' \<and>
        length (printed s) = 4)"
proof -
  let ?E = "\<lparr>links = no_links, print_exn = narrow_console\<rparr>"
  let ?fs = "\<lparr>folders = {''in''},
       entries = fmupd (''in'', ''a.cnf.xz'') (File ''garbage'')
                (fmupd (''in'', ''b.cnf.xz'') Denied
                (fmupd (''in'', ''d.cnf.xz'') (File ''XZp cnf 0 0'') fmempty))\<rparr>"
  let ?listing = "[''a.cnf.xz'', ''b.cnf.xz'', ''notes.txt'', ''d.cnf.xz'']"
  have handler: "\<forall>name \<in> set ?listing. \<forall>e.
      print_exn ?E (''Error extracting '' @ name @ '': '' @ str_exn toy_lib e) = None"
    by (simp add: narrow_console_def toy_lib_def split: exn.split)
  have final: "print_exn ?E ''All .cnf.xz files extracted successfully!'' = None"
    by (simp add: narrow_console_def)
  have nl: "no_links_in ?E ''out''" by (simp add: no_links_in_def no_links_def)
  have run: "extractor_env ?E toy_lib ''in'' ''out'' ?listing ?fs
     = (None,
        \<lparr>fsys = \<lparr>folders = {''out'', ''in''},
                 entries = fmupd (''out'', ''d.cnf'') (File ''p cnf 0 0'')
                          (fmupd (''out'', ''a.cnf'') (File [])
                          (fmupd (''in'', ''a.cnf.xz'') (File ''garbage'')
                          (fmupd (''in'', ''b.cnf.xz'') Denied
                          (fmupd (''in'', ''d.cnf.xz'') (File ''XZp cnf 0 0'') fmempty))))\<rparr>,
         printed = [''Error extracting a.cnf.xz: Input format not supported by decoder'',
                    ''Error extracting b.cnf.xz: Permission denied'',
                    ''Error extracting d.cnf.xz: character cannot be encoded'',
                    ''All .cnf.xz files extracted successfully!'']\<rparr>)"
    by (simp add: erun_simps xrun_simps)
  have count: "Suc (length (filter is_cnf_xz ?listing)) = 4"
    by (simp add: endswith_def lower_def lower_char_def)
  from extractor_continues_after_failures [OF handler final, of "''in''" "''out''" ?fs]
  have "\<exists>s. extractor_env ?E toy_lib ''in'' ''out'' ?listing ?fs = (None, s) \<and>
        last (printed s) = ''All .cnf.xz files extracted successfully!'' \<and>
        length (printed s) = 4"
    unfolding count by blast
  with final nl run show ?thesis by blast
qed

end
